theory Spec2Isabelle
  imports Complex_Main "HOL-Library.Sublist"
begin

section \<open>Data model of banking_atm_system.py\<close>

text \<open>
  The program keeps one dictionary \<^verbatim>\<open>accounts\<close> from account number to an account
  dictionary with a fixed set of keys, and rewrites the file \<^verbatim>\<open>accounts_data.json\<close>
  with the whole dictionary at every \<^verbatim>\<open>save_accounts\<close>.

  Modelling decisions, all of them visible in the definitions below:
  \<^item> a Python \<^verbatim>\<open>str\<close> is the list of its code points (\<open>pystr\<close>); the literals of the
    source are written \<open>str ''...''\<close>;
  \<^item> a Python \<^verbatim>\<open>float\<close> is an IEEE 754 double (\<open>pyfloat\<close>): a real number, an infinity
    or NaN, with every result of an operation rounded to the nearest double (\<open>rd\<close>);
    the two zeros are not told apart (no operation of the program does);
  \<^item> a date is kept by the source as its ISO string and compared as such; it is
    modelled by its year, month and day;
  \<^item> the clock (\<^verbatim>\<open>today_str()\<close>, \<^verbatim>\<open>now_str()\<close>) is read once per call and passed
    as the parameters \<open>today\<close> and \<open>now\<close>;
  \<^item> every \<^verbatim>\<open>input()\<close> is a parameter holding the text after \<^verbatim>\<open>.strip()\<close>
    (and \<^verbatim>\<open>.lower()\<close> where the source lowers it); an amount is \<open>None\<close> when
    \<^verbatim>\<open>float()\<close> raises \<^verbatim>\<open>ValueError\<close> and otherwise the float that \<^verbatim>\<open>float()\<close> returns,
    which may be an infinity or NaN (\<^verbatim>\<open>float("nan")\<close> raises nothing);
  \<^item> every account carries all twelve keys (as every account built by
    \<^verbatim>\<open>create_default_accounts\<close> and \<^verbatim>\<open>create_account\<close> does), so the defaults
    of \<^verbatim>\<open>account.get(key, default)\<close> are never used;
  \<^item> the text printed by an operation is abstracted to an \<open>outcome\<close>;
  \<^item> the note of an interest transaction is an f-string that formats two numbers;
    it is kept as the pair of numbers (\<open>InterestNote\<close>).
\<close>

subsection \<open>Strings\<close>

type_synonym pystr = "nat list"

definition str :: "string \<Rightarrow> pystr" where
  "str s = map of_char s"

subsection \<open>Floats\<close>

datatype pyfloat = Fin real | PInf | NInf | NaN

text \<open>
  The exponent of a positive real: \<open>ilog2 n x = e\<close> with \<open>2 ^ e \<le> x < 2 ^ (e + 1)\<close>, found
  by halving or doubling at most \<open>n\<close> times. The exponents of the doubles lie between
  -1074 and 1023, so 1100 steps are enough.
\<close>

fun ilog2 :: "nat \<Rightarrow> real \<Rightarrow> int" where
  "ilog2 0 x = 0"
| "ilog2 (Suc n) x =
     (if 2 \<le> x then ilog2 n (x / 2) + 1
      else if x < 1 then ilog2 n (2 * x) - 1
      else 0)"

text \<open>Rounding to the nearest integer, a tie to the even one.\<close>

definition round_half_even :: "real \<Rightarrow> int" where
  "round_half_even y =
     (let f = \<lfloor>y\<rfloor>; d = y - of_int f
      in if d < 1 / 2 then f else if 1 / 2 < d then f + 1 else if even f then f else f + 1)"

text \<open>The distance of the doubles with exponent \<open>e\<close>: 2 to the power \<open>e - 52\<close>.\<close>

definition ulp :: "int \<Rightarrow> real" where
  "ulp e = (if 52 \<le> e then 2 ^ nat (e - 52) else 1 / 2 ^ nat (52 - e))"

text \<open>
  The double nearest to a real (round to nearest, ties to even): 53 significant bits,
  the exponent at least -1022 (below it the subnormal numbers, spaced 2 to the power
  -1074), and an infinity when the rounded magnitude reaches 2 to the power 1024.
\<close>

definition rd :: "real \<Rightarrow> pyfloat" where
  "rd x =
     (if x = 0 then Fin 0
      else
        let e = max (ilog2 1100 \<bar>x\<bar>) (- 1022);
            r = of_int (round_half_even (x / ulp e)) * ulp e
        in if 2 ^ 1024 \<le> \<bar>r\<bar> then (if 0 < x then PInf else NInf) else Fin r)"

fun fneg :: "pyfloat \<Rightarrow> pyfloat" where
  "fneg (Fin x) = Fin (- x)"
| "fneg PInf = NInf"
| "fneg NInf = PInf"
| "fneg NaN = NaN"

fun fadd :: "pyfloat \<Rightarrow> pyfloat \<Rightarrow> pyfloat" where
  "fadd NaN y = NaN"
| "fadd x NaN = NaN"
| "fadd (Fin x) (Fin y) = rd (x + y)"
| "fadd PInf NInf = NaN"
| "fadd NInf PInf = NaN"
| "fadd PInf y = PInf"
| "fadd NInf y = NInf"
| "fadd x PInf = PInf"
| "fadd x NInf = NInf"

definition fsub :: "pyfloat \<Rightarrow> pyfloat \<Rightarrow> pyfloat" where
  "fsub x y = fadd x (fneg y)"

fun fmul :: "pyfloat \<Rightarrow> pyfloat \<Rightarrow> pyfloat" where
  "fmul NaN y = NaN"
| "fmul x NaN = NaN"
| "fmul (Fin x) (Fin y) = rd (x * y)"
| "fmul (Fin x) PInf = (if x = 0 then NaN else if 0 < x then PInf else NInf)"
| "fmul (Fin x) NInf = (if x = 0 then NaN else if 0 < x then NInf else PInf)"
| "fmul PInf (Fin y) = (if y = 0 then NaN else if 0 < y then PInf else NInf)"
| "fmul NInf (Fin y) = (if y = 0 then NaN else if 0 < y then NInf else PInf)"
| "fmul PInf PInf = PInf"
| "fmul PInf NInf = NInf"
| "fmul NInf PInf = NInf"
| "fmul NInf NInf = PInf"

text \<open>\<^verbatim>\<open>x / 12\<close>, the only division of the program.\<close>

fun fdiv12 :: "pyfloat \<Rightarrow> pyfloat" where
  "fdiv12 (Fin x) = rd (x / 12)"
| "fdiv12 PInf = PInf"
| "fdiv12 NInf = NInf"
| "fdiv12 NaN = NaN"

text \<open>\<^verbatim>\<open>x < y\<close> and \<^verbatim>\<open>x <= y\<close>: false whenever one side is NaN.\<close>

fun flt :: "pyfloat \<Rightarrow> pyfloat \<Rightarrow> bool" where
  "flt NaN y = False"
| "flt x NaN = False"
| "flt (Fin x) (Fin y) = (x < y)"
| "flt NInf NInf = False"
| "flt NInf y = True"
| "flt x NInf = False"
| "flt PInf y = False"
| "flt x PInf = True"

definition fle :: "pyfloat \<Rightarrow> pyfloat \<Rightarrow> bool" where
  "fle x y = (flt x y \<or> (x = y \<and> x \<noteq> NaN))"

subsection \<open>Accounts\<close>

datatype date = Date (year: int) (month: int) (day: int)

datatype txn_note = Note pystr | InterestNote int pyfloat

record transaction =
  time :: pystr
  t_type :: pystr
  amount :: pyfloat
  balance_after :: pyfloat
  t_note :: txn_note

record account =
  name :: pystr
  pin :: pystr
  balance :: pyfloat
  acc_type :: pystr
  transactions :: "transaction list"
  failed_attempts :: int
  locked :: bool
  daily_limit :: pyfloat
  withdrawn_today :: pyfloat
  last_withdraw_date :: date
  interest_rate :: pyfloat
  last_interest_date :: date

type_synonym ledger = "pystr \<rightharpoonup> account"

text \<open>
  The state of the program: the dictionary in memory and the contents of the data file.
\<close>

record world =
  accounts :: ledger
  stored :: ledger

datatype outcome =
    Success
  | NotFound
  | AccountLocked
  | InvalidPin
  | InvalidAmount
  | InsufficientFunds
  | DailyLimitExceeded
  | SameAccount
  | DuplicateId
  | InvalidType
  | NothingToAccrue
  | Unauthenticated
  | Cancelled
  | KeyError
  | EOFError

section \<open>Data handling\<close>

definition save_accounts :: "world \<Rightarrow> world" where
  "save_accounts w = w\<lparr>stored := accounts w\<rparr>"

text \<open>The literal \<^verbatim>\<open>0.04\<close> is the double nearest to 4/100.\<close>

definition create_default_accounts :: "date \<Rightarrow> ledger" where
  "create_default_accounts today =
     [str ''1001'' \<mapsto>
        \<lparr>name = str ''Rahul Sharma'', pin = str ''1234'', balance = Fin 15000,
         acc_type = str ''savings'', transactions = [], failed_attempts = 0,
         locked = False, daily_limit = Fin 20000, withdrawn_today = Fin 0,
         last_withdraw_date = today, interest_rate = rd (4 / 100),
         last_interest_date = today\<rparr>,
      str ''1002'' \<mapsto>
        \<lparr>name = str ''Priya Verma'', pin = str ''4321'', balance = Fin 8000,
         acc_type = str ''current'', transactions = [], failed_attempts = 0,
         locked = False, daily_limit = Fin 30000, withdrawn_today = Fin 0,
         last_withdraw_date = today, interest_rate = Fin 0,
         last_interest_date = today\<rparr>]"

text \<open>
  \<^verbatim>\<open>load_accounts\<close> on a first run (no data file): the default accounts, saved at once.
\<close>

definition first_run :: "date \<Rightarrow> world" where
  "first_run today =
     save_accounts \<lparr>accounts = create_default_accounts today, stored = Map.empty\<rparr>"

section \<open>Utility functions\<close>

text \<open>The slice \<^verbatim>\<open>xs[-n:]\<close> for a positive \<open>n\<close>: the last \<open>n\<close> elements, all of a shorter list.\<close>

definition keep_last :: "nat \<Rightarrow> 'a list \<Rightarrow> 'a list" where
  "keep_last n xs = drop (length xs - n) xs"

definition log_transaction ::
  "pystr \<Rightarrow> account \<Rightarrow> pystr \<Rightarrow> pyfloat \<Rightarrow> pyfloat \<Rightarrow> txn_note \<Rightarrow> account" where
  "log_transaction now account kind amt bal_after nt =
     (let txns = transactions account @
            [\<lparr>time = now, t_type = kind, amount = amt, balance_after = bal_after,
              t_note = nt\<rparr>]
      in account\<lparr>transactions := (if length txns > 50 then keep_last 50 txns else txns)\<rparr>)"

definition reset_daily_withdraw_if_new_day :: "date \<Rightarrow> account \<Rightarrow> account" where
  "reset_daily_withdraw_if_new_day today account =
     (if last_withdraw_date account \<noteq> today
      then account\<lparr>withdrawn_today := Fin 0, last_withdraw_date := today\<rparr>
      else account)"

section \<open>Authentication\<close>

text \<open>
  \<^verbatim>\<open>authenticate\<close> returns the account number or \<^verbatim>\<open>None\<close>; the model keeps, with
  \<^verbatim>\<open>None\<close>, which message was printed.
\<close>

datatype auth_result = Session pystr | Denied outcome

text \<open>
  One pass through the body of \<^verbatim>\<open>for attempt in range(3)\<close> with the PIN \<open>p\<close> typed at
  the prompt: \<open>Some r\<close> when the body returns \<open>r\<close>, \<open>None\<close> when the loop goes on.
  The variable \<^verbatim>\<open>account\<close> of the source is the entry \<^verbatim>\<open>accounts[acc_no]\<close> itself.
\<close>

definition pin_attempt :: "world \<Rightarrow> pystr \<Rightarrow> pystr \<Rightarrow> auth_result option \<times> world" where
  "pin_attempt w acc_no p =
     (case accounts w acc_no of
        None \<Rightarrow> (Some (Denied KeyError), w)
      | Some account \<Rightarrow>
          if p = pin account then
            (Some (Session acc_no),
             save_accounts (w\<lparr>accounts := (accounts w)(acc_no \<mapsto> account\<lparr>failed_attempts := 0\<rparr>)\<rparr>))
          else
            let account' = account\<lparr>failed_attempts := failed_attempts account + 1\<rparr> in
            if failed_attempts account' \<ge> 3 then
              (Some (Denied AccountLocked),
               save_accounts (w\<lparr>accounts := (accounts w)(acc_no \<mapsto> account'\<lparr>locked := True\<rparr>)\<rparr>))
            else (None, w\<lparr>accounts := (accounts w)(acc_no \<mapsto> account')\<rparr>))"

text \<open>
  The loop, with \<open>n\<close> passes left and the PINs still to be typed. When the loop ends
  without a return, the source saves and returns \<^verbatim>\<open>None\<close>. An exhausted input makes
  \<^verbatim>\<open>input()\<close> raise \<^verbatim>\<open>EOFError\<close>, which nothing catches.
\<close>

fun pin_loop :: "nat \<Rightarrow> world \<Rightarrow> pystr \<Rightarrow> pystr list \<Rightarrow> auth_result \<times> world" where
  "pin_loop 0 w acc_no pins = (Denied Unauthenticated, save_accounts w)"
| "pin_loop (Suc n) w acc_no [] = (Denied EOFError, w)"
| "pin_loop (Suc n) w acc_no (p # pins) =
     (case pin_attempt w acc_no p of
        (Some r, w') \<Rightarrow> (r, w')
      | (None, w') \<Rightarrow> pin_loop n w' acc_no pins)"

definition authenticate :: "world \<Rightarrow> pystr \<Rightarrow> pystr list \<Rightarrow> auth_result \<times> world" where
  "authenticate w acc_no pins =
     (case accounts w acc_no of
        None \<Rightarrow> (Denied NotFound, w)
      | Some account \<Rightarrow>
          if locked account then (Denied AccountLocked, w)
          else pin_loop 3 w acc_no pins)"

section \<open>Banking operations\<close>

definition deposit_amount ::
  "pystr \<Rightarrow> world \<Rightarrow> pystr \<Rightarrow> pyfloat option \<Rightarrow> outcome \<times> world" where
  "deposit_amount now w acc_no amount_in =
     (case amount_in of
        None \<Rightarrow> (InvalidAmount, w)
      | Some amt \<Rightarrow>
          if fle amt (Fin 0) then (InvalidAmount, w)
          else
            (case accounts w acc_no of
               None \<Rightarrow> (KeyError, w)
             | Some account \<Rightarrow>
                 let a1 = account\<lparr>balance := fadd (balance account) amt\<rparr>;
                     a2 = log_transaction now a1 (str ''deposit'') amt (balance a1)
                            (Note (str ''Cash deposit''))
                 in (Success, save_accounts (w\<lparr>accounts := (accounts w)(acc_no \<mapsto> a2)\<rparr>))))"

definition withdraw_amount ::
  "date \<Rightarrow> pystr \<Rightarrow> world \<Rightarrow> pystr \<Rightarrow> pyfloat option \<Rightarrow> outcome \<times> world" where
  "withdraw_amount today now w acc_no amount_in =
     (case amount_in of
        None \<Rightarrow> (InvalidAmount, w)
      | Some amt \<Rightarrow>
          if fle amt (Fin 0) then (InvalidAmount, w)
          else
            (case accounts w acc_no of
               None \<Rightarrow> (KeyError, w)
             | Some account0 \<Rightarrow>
                 let account = reset_daily_withdraw_if_new_day today account0;
                     w1 = w\<lparr>accounts := (accounts w)(acc_no \<mapsto> account)\<rparr>
                 in
                 if flt (balance account) amt then (InsufficientFunds, w1)
                 else
                   let wd = withdrawn_today account;
                       limit = daily_limit account
                   in
                   if flt limit (fadd wd amt) then (DailyLimitExceeded, w1)
                   else
                     let a1 = account\<lparr>balance := fsub (balance account) amt,
                                       withdrawn_today := fadd wd amt,
                                       last_withdraw_date := today\<rparr>;
                         a2 = log_transaction now a1 (str ''withdraw'') amt (balance a1)
                                (Note (str ''Cash withdrawal''))
                     in (Success, save_accounts (w\<lparr>accounts := (accounts w)(acc_no \<mapsto> a2)\<rparr>))))"

text \<open>
  \<^verbatim>\<open>transfer_funds\<close>: \<open>source\<close> and \<open>target\<close> are the entries of two different keys
  (the source has returned before when the keys are equal), hence two different
  dictionaries: the debit of the one does not touch the other.
\<close>

definition transfer_funds ::
  "date \<Rightarrow> pystr \<Rightarrow> world \<Rightarrow> pystr \<Rightarrow> pystr \<Rightarrow> pyfloat option \<Rightarrow> outcome \<times> world" where
  "transfer_funds today now w acc_no target_acc_no amount_in =
     (case accounts w target_acc_no of
        None \<Rightarrow> (NotFound, w)
      | Some target \<Rightarrow>
          if target_acc_no = acc_no then (SameAccount, w)
          else
            (case amount_in of
               None \<Rightarrow> (InvalidAmount, w)
             | Some amt \<Rightarrow>
                 if fle amt (Fin 0) then (InvalidAmount, w)
                 else
                   (case accounts w acc_no of
                      None \<Rightarrow> (KeyError, w)
                    | Some source0 \<Rightarrow>
                        let source = reset_daily_withdraw_if_new_day today source0;
                            w1 = w\<lparr>accounts := (accounts w)(acc_no \<mapsto> source)\<rparr>
                        in
                        if flt (balance source) amt then (InsufficientFunds, w1)
                        else
                          let wd = withdrawn_today source;
                              limit = daily_limit source
                          in
                          if flt limit (fadd wd amt) then (DailyLimitExceeded, w1)
                          else
                            let s1 = source\<lparr>balance := fsub (balance source) amt,
                                            withdrawn_today := fadd wd amt,
                                            last_withdraw_date := today\<rparr>;
                                s2 = log_transaction now s1 (str ''transfer_out'') amt (balance s1)
                                       (Note (str ''Transfer to '' @ target_acc_no));
                                t1 = target\<lparr>balance := fadd (balance target) amt\<rparr>;
                                t2 = log_transaction now t1 (str ''transfer_in'') amt (balance t1)
                                       (Note (str ''Transfer from '' @ acc_no))
                            in (Success,
                                save_accounts
                                  (w\<lparr>accounts :=
                                       (accounts w)(acc_no \<mapsto> s2, target_acc_no \<mapsto> t2)\<rparr>)))))"

text \<open>\<^verbatim>\<open>txns[-10:]\<close> of \<^verbatim>\<open>mini_statement\<close>, and \<^verbatim>\<open>check_balance\<close>; both only read.\<close>

definition mini_statement :: "world \<Rightarrow> pystr \<Rightarrow> transaction list option" where
  "mini_statement w acc_no = map_option (\<lambda>a. keep_last 10 (transactions a)) (accounts w acc_no)"

definition check_balance :: "world \<Rightarrow> pystr \<Rightarrow> pyfloat option" where
  "check_balance w acc_no = map_option balance (accounts w acc_no)"

definition months_between :: "date \<Rightarrow> date \<Rightarrow> int" where
  "months_between last_date today =
     (year today - year last_date) * 12 + (month today - month last_date)"

text \<open>
  \<^verbatim>\<open>balance * (rate / 12) * months\<close>: two float products, the integer \<open>months\<close>
  converted to the nearest double.
\<close>

definition apply_interest_if_savings ::
  "date \<Rightarrow> pystr \<Rightarrow> world \<Rightarrow> pystr \<Rightarrow> outcome \<times> world" where
  "apply_interest_if_savings today now w acc_no =
     (case accounts w acc_no of
        None \<Rightarrow> (KeyError, w)
      | Some account \<Rightarrow>
          if acc_type account \<noteq> str ''savings'' then (NothingToAccrue, w)
          else
            let rate = interest_rate account in
            if fle rate (Fin 0) then (NothingToAccrue, w)
            else
              let months = months_between (last_interest_date account) today in
              if months \<le> 0 then (NothingToAccrue, w)
              else
                let bal = balance account;
                    interest = fmul (fmul bal (fdiv12 rate)) (rd (of_int months))
                in
                if fle interest (Fin 0) then (NothingToAccrue, w)
                else
                  let a1 = account\<lparr>balance := fadd (balance account) interest,
                                    last_interest_date := today\<rparr>;
                      a2 = log_transaction now a1 (str ''interest'') interest (balance a1)
                             (InterestNote months rate)
                  in (Success, save_accounts (w\<lparr>accounts := (accounts w)(acc_no \<mapsto> a2)\<rparr>)))"

section \<open>Admin features\<close>

text \<open>
  \<^verbatim>\<open>str.isdigit\<close>: the string is not empty and each of its characters is a digit. The
  digits are the ASCII digits 0 to 9 (code points 48 to 57) and the characters beyond
  ASCII that the Unicode database of the running Python lists as digits (digits of other
  scripts, superscripts and so on). That list is not part of the repository: it is the
  parameter \<open>other\<close>, and nothing is assumed of it.
\<close>

definition isdigit :: "(nat \<Rightarrow> bool) \<Rightarrow> pystr \<Rightarrow> bool" where
  "isdigit other s = (s \<noteq> [] \<and> list_all (\<lambda>c. (48 \<le> c \<and> c \<le> 57) \<or> other c) s)"

definition create_account ::
  "(nat \<Rightarrow> bool) \<Rightarrow> date \<Rightarrow> pystr \<Rightarrow> world \<Rightarrow> pystr \<Rightarrow> pystr \<Rightarrow> pystr \<Rightarrow> pyfloat option
     \<Rightarrow> pystr \<Rightarrow> outcome \<times> world" where
  "create_account other today now w acc_no holder new_pin opening_in type_in =
     (case accounts w acc_no of
        Some _ \<Rightarrow> (DuplicateId, w)
      | None \<Rightarrow>
          if \<not> (isdigit other new_pin \<and> length new_pin = 4) then (InvalidPin, w)
          else
            (case opening_in of
               None \<Rightarrow> (InvalidAmount, w)
             | Some opening_balance \<Rightarrow>
                 if type_in \<notin> set [str ''savings'', str ''current''] then (InvalidType, w)
                 else
                   let rate = (if type_in = str ''savings'' then rd (4 / 100) else Fin 0);
                       a0 = \<lparr>name = holder, pin = new_pin, balance = opening_balance,
                             acc_type = type_in, transactions = [], failed_attempts = 0,
                             locked = False, daily_limit = Fin 20000, withdrawn_today = Fin 0,
                             last_withdraw_date = today, interest_rate = rate,
                             last_interest_date = today\<rparr>;
                       a1 = log_transaction now a0 (str ''deposit'') opening_balance
                              opening_balance (Note (str ''Opening deposit''))
                   in (Success, save_accounts (w\<lparr>accounts := (accounts w)(acc_no \<mapsto> a1)\<rparr>))))"

definition delete_account :: "world \<Rightarrow> pystr \<Rightarrow> pystr \<Rightarrow> outcome \<times> world" where
  "delete_account w acc_no confirm =
     (case accounts w acc_no of
        None \<Rightarrow> (NotFound, w)
      | Some _ \<Rightarrow>
          if confirm = str ''y''
          then (Success, save_accounts (w\<lparr>accounts := (accounts w)(acc_no := None)\<rparr>))
          else (Cancelled, w))"

definition unlock_account :: "world \<Rightarrow> pystr \<Rightarrow> outcome \<times> world" where
  "unlock_account w acc_no =
     (case accounts w acc_no of
        None \<Rightarrow> (NotFound, w)
      | Some account \<Rightarrow>
          (Success,
           save_accounts
             (w\<lparr>accounts := (accounts w)(acc_no \<mapsto> account\<lparr>locked := False, failed_attempts := 0\<rparr>)\<rparr>)))"

section \<open>Sequences of operations\<close>

text \<open>
  The menus call one operation after the other on the same dictionary. A command
  is one such call with what the user typed; it is run at a reading of the clock.
  The ATM menu only runs after \<^verbatim>\<open>authenticate\<close> returned the account number; \<open>run\<close>
  does not demand that, so the ledgers it reaches include all that the menus reach.
\<close>

datatype command =
    Login pystr "pystr list"
  | Deposit pystr "pyfloat option"
  | Withdraw pystr "pyfloat option"
  | Transfer pystr pystr "pyfloat option"
  | Interest pystr
  | Create pystr pystr pystr "pyfloat option" pystr
  | Delete pystr pystr
  | Unlock pystr

fun exec :: "(nat \<Rightarrow> bool) \<Rightarrow> date \<Rightarrow> pystr \<Rightarrow> command \<Rightarrow> world \<Rightarrow> world" where
  "exec other today now (Login acc_no pins) w = snd (authenticate w acc_no pins)"
| "exec other today now (Deposit acc_no a) w = snd (deposit_amount now w acc_no a)"
| "exec other today now (Withdraw acc_no a) w = snd (withdraw_amount today now w acc_no a)"
| "exec other today now (Transfer acc_no tgt a) w =
     snd (transfer_funds today now w acc_no tgt a)"
| "exec other today now (Interest acc_no) w =
     snd (apply_interest_if_savings today now w acc_no)"
| "exec other today now (Create acc_no holder p a ty) w =
     snd (create_account other today now w acc_no holder p a ty)"
| "exec other today now (Delete acc_no confirm) w = snd (delete_account w acc_no confirm)"
| "exec other today now (Unlock acc_no) w = snd (unlock_account w acc_no)"

fun run :: "(nat \<Rightarrow> bool) \<Rightarrow> world \<Rightarrow> (date \<times> pystr \<times> command) list \<Rightarrow> world" where
  "run other w [] = w"
| "run other w ((today, now, c) # cs) = run other (exec other today now c w) cs"

section \<open>Notions used in the statements\<close>

text \<open>
  Logging a list of entries one after the other, as a sequence of operations on one
  account does.
\<close>

definition log_all :: "account \<Rightarrow> transaction list \<Rightarrow> account" where
  "log_all a es =
     foldl (\<lambda>acc e. log_transaction (time e) acc (t_type e) (amount e) (balance_after e) (t_note e))
       a es"

text \<open>The invariants of a ledger that the proofs carry along a sequence of operations.\<close>

definition bounded_history :: "ledger \<Rightarrow> bool" where
  "bounded_history l = (\<forall>k a. l k = Some a \<longrightarrow> length (transactions a) \<le> 50)"

definition nonneg_counters :: "ledger \<Rightarrow> bool" where
  "nonneg_counters l = (\<forall>k a. l k = Some a \<longrightarrow> 0 \<le> failed_attempts a)"

definition fresh_counters :: "ledger \<Rightarrow> bool" where
  "fresh_counters l = (\<forall>k a. l k = Some a \<and> \<not> locked a \<longrightarrow> failed_attempts a = 0)"

text \<open>What one operation may do to the history of an account.\<close>

definition history_step :: "transaction list \<Rightarrow> transaction list \<Rightarrow> bool" where
  "history_step old new = (new = old \<or> (\<exists>e. new = keep_last 50 (old @ [e])))"

text \<open>
  A login whose input holds the three PINs that the loop may ask for, so that
  \<^verbatim>\<open>input()\<close> does not run out.
\<close>

fun enough_pins :: "command \<Rightarrow> bool" where
  "enough_pins (Login acc_no pins) = (3 \<le> length pins)"
| "enough_pins c = True"

section \<open>Basic facts\<close>

subsection \<open>Strings\<close>

lemma str_eq_iff [simp]: "str a = str b \<longleftrightarrow> a = b"
proof -
  have "inj (of_char :: char \<Rightarrow> nat)" by (rule inj_of_char)
  then show ?thesis by (simp add: str_def inj_map_eq_map)
qed

lemma isdigit_ascii: "isdigit other (str ''1111'')"
  by (simp add: isdigit_def str_def)

lemma length_str [simp]: "length (str s) = length s"
  by (simp add: str_def)

subsection \<open>Rounding\<close>

lemma ilog2_ge1:
  "2 ^ k \<le> x \<Longrightarrow> x < 2 ^ Suc k \<Longrightarrow> k < n \<Longrightarrow> ilog2 n x = int k"
proof (induction k arbitrary: n x)
  case 0
  then obtain m where "n = Suc m" by (cases n) auto
  with 0 show ?case by simp
next
  case (Suc k)
  then obtain m where n: "n = Suc m" by (cases n) auto
  have a: "(1::real) \<le> 2 ^ k" by simp
  from Suc.prems(1) have "2 * 2 ^ k \<le> x" by simp
  with a have "2 \<le> x" by linarith
  moreover have "ilog2 m (x / 2) = int k"
    using Suc.prems n by (intro Suc.IH) auto
  ultimately show ?case by (simp add: n)
qed


lemma round_half_even_eval:
  assumes "of_int n - 1 / 2 < y" "y < of_int n + 1 / 2"
  shows "round_half_even y = n"
proof -
  have "\<lfloor>y\<rfloor> = n \<or> \<lfloor>y\<rfloor> = n - 1" using assms by linarith
  then show ?thesis
  proof
    assume f: "\<lfloor>y\<rfloor> = n"
    then have "y - of_int n < 1 / 2" using assms by simp
    with f show ?thesis by (simp add: round_half_even_def Let_def)
  next
    assume f: "\<lfloor>y\<rfloor> = n - 1"
    then have "1 / 2 < y - of_int (n - 1)" using assms by simp
    with f show ?thesis by (simp add: round_half_even_def Let_def)
  qed
qed

lemma round_half_even_of_int: "round_half_even (of_int n) = n"
  by (rule round_half_even_eval) simp_all

text \<open>How a rounding is computed at a given number.\<close>

lemma rd_evalI:
  assumes "x \<noteq> 0" and "ilog2 1100 \<bar>x\<bar> = e" and "- 1022 \<le> e"
    and "of_int n - 1 / 2 < x / ulp e" and "x / ulp e < of_int n + 1 / 2"
    and "\<bar>of_int n * ulp e\<bar> < 2 ^ 1024"
  shows "rd x = Fin (of_int n * ulp e)"
proof -
  have "round_half_even (x / ulp e) = n"
    using assms(4,5) by (rule round_half_even_eval)
  moreover have "max (ilog2 1100 \<bar>x\<bar>) (- 1022) = e"
    using assms(2,3) by simp
  ultimately show ?thesis
    using assms(1,6) by (simp add: rd_def Let_def)
qed

lemma exponent_exists:
  "1 \<le> x \<Longrightarrow> x < 2 ^ n \<Longrightarrow> \<exists>k<n. 2 ^ k \<le> x \<and> x < 2 ^ Suc k"
  for x :: real
proof (induction n)
  case 0
  then show ?case by simp
next
  case (Suc n)
  show ?case
  proof (cases "x < 2 ^ n")
    case True
    with Suc obtain k where "k < n" "2 ^ k \<le> x" "x < 2 ^ Suc k" by blast
    then show ?thesis by (intro exI [of _ k]) simp
  next
    case False
    with Suc.prems show ?thesis by (intro exI [of _ n]) simp
  qed
qed

text \<open>An integer below 2 to the power 53 is a double.\<close>

lemma rd_exact_int:
  assumes "\<bar>m\<bar> < 2 ^ 53"
  shows "rd (of_int m) = Fin (of_int m)"
proof (cases "m = 0")
  case True
  then show ?thesis by (simp add: rd_def)
next
  case False
  define x :: real where "x = \<bar>of_int m\<bar>"
  have x1: "1 \<le> x" using False by (simp add: x_def)
  have "x = of_int \<bar>m\<bar>" by (simp add: x_def)
  also have "\<dots> < of_int (2 ^ 53)" using assms by (simp only: of_int_less_iff)
  finally have x2: "x < 2 ^ 53" by simp
  from exponent_exists [OF x1 x2] obtain k where k: "k < 53" "2 ^ k \<le> x" "x < 2 ^ Suc k"
    by blast
  have e: "ilog2 1100 \<bar>of_int m\<bar> = int k"
    using ilog2_ge1 [of k x 1100] k by (simp add: x_def)
  have u: "ulp (int k) = 1 / 2 ^ (52 - k)"
    using k(1) by (cases "k = 52") (simp_all add: ulp_def nat_diff_distrib')
  have q: "of_int m / ulp (int k) = of_int (m * 2 ^ (52 - k))"
    by (simp add: u)
  have r: "round_half_even (of_int m / ulp (int k)) = m * 2 ^ (52 - k)"
    by (simp only: q round_half_even_of_int)
  have v: "real_of_int (m * 2 ^ (52 - k)) * ulp (int k) = of_int m"
    by (simp add: u)
  have "\<bar>real_of_int m\<bar> < 2 ^ 53" using x2 by (simp add: x_def)
  also have "(2::real) ^ 53 \<le> 2 ^ 1024" by (intro power_increasing) simp_all
  finally have b: "\<not> 2 ^ 1024 \<le> \<bar>real_of_int m\<bar>" by simp
  have mx: "max (int k) (- 1022) = int k" by simp
  show ?thesis
    using False b by (simp only: rd_def Let_def e mx r v) simp
qed

lemma rd_numeral [simp]: "numeral v < (2::int) ^ 53 \<Longrightarrow> rd (numeral v) = Fin (numeral v)"
  using rd_exact_int [of "numeral v"] by simp

lemma rd_neg_numeral [simp]:
  "numeral v < (2::int) ^ 53 \<Longrightarrow> rd (- numeral v) = Fin (- numeral v)"
  using rd_exact_int [of "- numeral v"] by simp

lemma rd_0 [simp]: "rd 0 = Fin 0"
  by (simp add: rd_def)

lemma rd_1 [simp]: "rd 1 = Fin 1"
  using rd_exact_int [of 1] by simp

subsection \<open>Comparisons and NaN\<close>

lemma fle_Fin [simp]: "fle (Fin x) (Fin y) \<longleftrightarrow> x \<le> y"
  by (auto simp: fle_def)

lemma fle_NaN [simp]: "\<not> fle NaN y" "\<not> fle x NaN"
  by (cases x; simp add: fle_def)+

lemma flt_NaN_right [simp]: "\<not> flt x NaN"
  by (cases x) simp_all

lemma fadd_NaN_right [simp]: "fadd x NaN = NaN"
  by (cases x) simp_all

lemma fmul_NaN_right [simp]: "fmul x NaN = NaN"
  by (cases x) simp_all

lemma fsub_NaN [simp]: "fsub x NaN = NaN" "fsub NaN y = NaN"
  by (simp_all add: fsub_def)

lemma not_fle_iff: "x \<noteq> NaN \<Longrightarrow> y \<noteq> NaN \<Longrightarrow> \<not> fle x y \<longleftrightarrow> flt y x"
  by (cases x; cases y) (auto simp: fle_def)

lemma not_flt_iff: "x \<noteq> NaN \<Longrightarrow> y \<noteq> NaN \<Longrightarrow> \<not> flt x y \<longleftrightarrow> fle y x"
  by (cases x; cases y) (auto simp: fle_def)

subsection \<open>Histories\<close>

lemma keep_last_length: "length (keep_last n xs) = min n (length xs)"
  by (simp add: keep_last_def)

lemma log_transaction_transactions:
  "transactions (log_transaction now a k amt b nt) =
     keep_last 50 (transactions a @
       [\<lparr>time = now, t_type = k, amount = amt, balance_after = b, t_note = nt\<rparr>])"
  by (simp add: log_transaction_def keep_last_def Let_def)

lemma keep_last_snoc: "keep_last (Suc n) (xs @ [x]) = keep_last n xs @ [x]"
  by (simp add: keep_last_def Suc_diff_le)

lemma keep_last_short: "length xs \<le> n \<Longrightarrow> keep_last n xs = xs"
  by (simp add: keep_last_def)

lemma log_transaction_snoc:
  "transactions (log_transaction now a k amt b nt) =
     keep_last 49 (transactions a) @
       [\<lparr>time = now, t_type = k, amount = amt, balance_after = b, t_note = nt\<rparr>]"
  using keep_last_snoc [of 49] by (simp add: log_transaction_transactions)

lemma log_transaction_fields [simp]:
  "balance (log_transaction now a k amt b nt) = balance a"
  "name (log_transaction now a k amt b nt) = name a"
  "pin (log_transaction now a k amt b nt) = pin a"
  "acc_type (log_transaction now a k amt b nt) = acc_type a"
  "failed_attempts (log_transaction now a k amt b nt) = failed_attempts a"
  "locked (log_transaction now a k amt b nt) = locked a"
  "daily_limit (log_transaction now a k amt b nt) = daily_limit a"
  "withdrawn_today (log_transaction now a k amt b nt) = withdrawn_today a"
  "last_withdraw_date (log_transaction now a k amt b nt) = last_withdraw_date a"
  "interest_rate (log_transaction now a k amt b nt) = interest_rate a"
  "last_interest_date (log_transaction now a k amt b nt) = last_interest_date a"
  by (simp_all add: log_transaction_def Let_def)

lemma reset_fields [simp]:
  "balance (reset_daily_withdraw_if_new_day d a) = balance a"
  "transactions (reset_daily_withdraw_if_new_day d a) = transactions a"
  "name (reset_daily_withdraw_if_new_day d a) = name a"
  "pin (reset_daily_withdraw_if_new_day d a) = pin a"
  "acc_type (reset_daily_withdraw_if_new_day d a) = acc_type a"
  "failed_attempts (reset_daily_withdraw_if_new_day d a) = failed_attempts a"
  "locked (reset_daily_withdraw_if_new_day d a) = locked a"
  "daily_limit (reset_daily_withdraw_if_new_day d a) = daily_limit a"
  "interest_rate (reset_daily_withdraw_if_new_day d a) = interest_rate a"
  "last_interest_date (reset_daily_withdraw_if_new_day d a) = last_interest_date a"
  by (simp_all add: reset_daily_withdraw_if_new_day_def)

subsection \<open>The first-run ledger\<close>

lemma first_run_1001:
  "accounts (first_run d) (str ''1001'') =
     Some \<lparr>name = str ''Rahul Sharma'', pin = str ''1234'', balance = Fin 15000,
         acc_type = str ''savings'', transactions = [], failed_attempts = 0,
         locked = False, daily_limit = Fin 20000, withdrawn_today = Fin 0,
         last_withdraw_date = d, interest_rate = rd (4 / 100),
         last_interest_date = d\<rparr>"
  by (simp add: first_run_def create_default_accounts_def save_accounts_def)

lemma first_run_1002:
  "accounts (first_run d) (str ''1002'') =
     Some \<lparr>name = str ''Priya Verma'', pin = str ''4321'', balance = Fin 8000,
         acc_type = str ''current'', transactions = [], failed_attempts = 0,
         locked = False, daily_limit = Fin 30000, withdrawn_today = Fin 0,
         last_withdraw_date = d, interest_rate = Fin 0,
         last_interest_date = d\<rparr>"
  by (simp add: first_run_def create_default_accounts_def save_accounts_def)

lemma first_run_2001: "accounts (first_run d) (str ''2001'') = None"
  by (simp add: first_run_def create_default_accounts_def save_accounts_def)

lemma first_run_stored: "stored (first_run d) = accounts (first_run d)"
  by (simp add: first_run_def save_accounts_def)

subsection \<open>Some roundings\<close>

lemma rd_big_minus_1: "rd 100000000000007999 = Fin 100000000000008000"
proof -
  have e: "ilog2 1100 \<bar>100000000000007999\<bar> = 56"
    using ilog2_ge1 [of 56 100000000000007999 1100] by simp
  have u: "ulp 56 = 16" by (simp add: ulp_def)
  have "rd 100000000000007999 = Fin (of_int 6250000000000500 * ulp 56)"
    by (rule rd_evalI [OF _ e]) (simp_all add: u)
  then show ?thesis by (simp add: u)
qed

lemma rd_big: "rd 100000000000008000 = Fin 100000000000008000"
proof -
  have e: "ilog2 1100 \<bar>100000000000008000\<bar> = 56"
    using ilog2_ge1 [of 56 100000000000008000 1100] by simp
  have u: "ulp 56 = 16" by (simp add: ulp_def)
  have "rd 100000000000008000 = Fin (of_int 6250000000000500 * ulp 56)"
    by (rule rd_evalI [OF _ e]) (simp_all add: u)
  then show ?thesis by (simp add: u)
qed

lemma rd_limit_plus: "rd (30000 + 1 / 2 ^ 40) = Fin 30000"
proof -
  have e: "ilog2 1100 \<bar>30000 + 1 / 2 ^ 40\<bar> = 14"
    using ilog2_ge1 [of 14 "30000 + 1 / 2 ^ 40" 1100] by simp
  have u: "ulp 14 = 1 / 2 ^ 38" by (simp add: ulp_def)
  have "rd (30000 + 1 / 2 ^ 40) = Fin (of_int (30000 * 2 ^ 38) * ulp 14)"
    by (rule rd_evalI [OF _ e]) (simp_all add: u)
  then show ?thesis by (simp add: u)
qed

section \<open>Withdrawal\<close>

text \<open>
  Claim C4 states the success of a withdrawal by three conditions on the amount in
  exact arithmetic, and an exact change of the balance. The source computes in floats.
  \<^item> The amount NaN, which \<^verbatim>\<open>float("nan")\<close> returns, passes all three checks (every
    comparison with NaN is false): the withdrawal succeeds with an amount that is not
    greater than 0, and the balance is NaN afterwards.
  \<^item> With the balance 100000000000008000, a withdrawal of 1 succeeds and the balance is
    as before: the difference is rounded to the nearest double.
  \<^item> With withdrawn_today = daily_limit = 30000, a withdrawal of 2 to the power -40
    succeeds: the sum is rounded to 30000, which is not above the limit.
\<close>

lemma deposit_big_1002:
  "accounts (snd (deposit_amount now (first_run d) (str ''1002'')
       (Some (Fin 100000000000000000)))) (str ''1002'') =
     Some \<lparr>name = str ''Priya Verma'', pin = str ''4321'', balance = Fin 100000000000008000,
         acc_type = str ''current'',
         transactions = [\<lparr>time = now, t_type = str ''deposit'', amount = Fin 100000000000000000,
            balance_after = Fin 100000000000008000, t_note = Note (str ''Cash deposit'')\<rparr>],
         failed_attempts = 0,
         locked = False, daily_limit = Fin 30000, withdrawn_today = Fin 0,
         last_withdraw_date = d, interest_rate = Fin 0,
         last_interest_date = d\<rparr>"
  by (simp add: deposit_amount_def first_run_1002 Let_def log_transaction_def save_accounts_def
        rd_big)

lemma deposit_big_1001:
  "accounts (snd (deposit_amount now (first_run d) (str ''1002'')
       (Some (Fin 100000000000000000)))) (str ''1001'') = accounts (first_run d) (str ''1001'')"
  by (simp add: deposit_amount_def first_run_1002 Let_def save_accounts_def)

lemma at_limit_1002:
  "accounts (snd (withdraw_amount d now
       (snd (deposit_amount now (first_run d) (str ''1002'') (Some (Fin 30000))))
       (str ''1002'') (Some (Fin 30000)))) (str ''1002'') =
     Some \<lparr>name = str ''Priya Verma'', pin = str ''4321'', balance = Fin 8000,
         acc_type = str ''current'',
         transactions =
           [\<lparr>time = now, t_type = str ''deposit'', amount = Fin 30000,
              balance_after = Fin 38000, t_note = Note (str ''Cash deposit'')\<rparr>,
            \<lparr>time = now, t_type = str ''withdraw'', amount = Fin 30000,
              balance_after = Fin 8000, t_note = Note (str ''Cash withdrawal'')\<rparr>],
         failed_attempts = 0,
         locked = False, daily_limit = Fin 30000, withdrawn_today = Fin 30000,
         last_withdraw_date = d, interest_rate = Fin 0,
         last_interest_date = d\<rparr>"
  by (simp add: deposit_amount_def withdraw_amount_def first_run_1002 Let_def
        log_transaction_def save_accounts_def reset_daily_withdraw_if_new_day_def fsub_def
        keep_last_def)

lemma withdraw_succeeds:
  assumes "accounts w k = Some a"
    and "balance a = b" and "daily_limit a = l"
    and "withdrawn_today (reset_daily_withdraw_if_new_day d a) = wd"
    and "\<not> fle amt (Fin 0)" and "\<not> flt b amt" and "\<not> flt l (fadd wd amt)"
  shows "fst (withdraw_amount d now w k (Some amt)) = Success"
  using assms by (simp add: withdraw_amount_def Let_def)

theorem withdraw_amount_float_counterexample:
  "fst (withdraw_amount (Date 2025 1 15) (str ''2025-01-15 10:00:00'')
          (first_run (Date 2025 1 15)) (str ''1001'') (Some NaN)) = Success \<and>
   map_option balance
     (accounts (snd (withdraw_amount (Date 2025 1 15) (str ''2025-01-15 10:00:00'')
          (first_run (Date 2025 1 15)) (str ''1001'') (Some NaN))) (str ''1001'')) = Some NaN \<and>
   map_option balance
     (accounts (snd (deposit_amount (str ''2025-01-15 10:00:00'') (first_run (Date 2025 1 15))
          (str ''1002'') (Some (Fin 100000000000000000)))) (str ''1002''))
     = Some (Fin 100000000000008000) \<and>
   fst (withdraw_amount (Date 2025 1 15) (str ''2025-01-15 10:00:00'')
          (snd (deposit_amount (str ''2025-01-15 10:00:00'') (first_run (Date 2025 1 15))
             (str ''1002'') (Some (Fin 100000000000000000))))
          (str ''1002'') (Some (Fin 1))) = Success \<and>
   map_option balance
     (accounts (snd (withdraw_amount (Date 2025 1 15) (str ''2025-01-15 10:00:00'')
          (snd (deposit_amount (str ''2025-01-15 10:00:00'') (first_run (Date 2025 1 15))
             (str ''1002'') (Some (Fin 100000000000000000))))
          (str ''1002'') (Some (Fin 1)))) (str ''1002''))
     = Some (Fin 100000000000008000) \<and>
   map_option (\<lambda>a. (withdrawn_today a, daily_limit a))
     (accounts (snd (withdraw_amount (Date 2025 1 15) (str ''2025-01-15 10:00:00'')
         (snd (deposit_amount (str ''2025-01-15 10:00:00'') (first_run (Date 2025 1 15))
            (str ''1002'') (Some (Fin 30000))))
         (str ''1002'') (Some (Fin 30000)))) (str ''1002''))
     = Some (Fin 30000, Fin 30000) \<and>
   fst (withdraw_amount (Date 2025 1 15) (str ''2025-01-15 10:00:00'')
          (snd (withdraw_amount (Date 2025 1 15) (str ''2025-01-15 10:00:00'')
             (snd (deposit_amount (str ''2025-01-15 10:00:00'') (first_run (Date 2025 1 15))
                (str ''1002'') (Some (Fin 30000))))
             (str ''1002'') (Some (Fin 30000))))
          (str ''1002'') (Some (Fin (1 / 2 ^ 40)))) = Success"
proof -
  have 1: "fst (withdraw_amount (Date 2025 1 15) (str ''2025-01-15 10:00:00'')
          (first_run (Date 2025 1 15)) (str ''1001'') (Some NaN)) = Success"
    and 2: "map_option balance
     (accounts (snd (withdraw_amount (Date 2025 1 15) (str ''2025-01-15 10:00:00'')
          (first_run (Date 2025 1 15)) (str ''1001'') (Some NaN))) (str ''1001'')) = Some NaN"
    by (simp_all add: withdraw_amount_def first_run_1001 Let_def
          reset_daily_withdraw_if_new_day_def save_accounts_def)
  have 3: "fst (withdraw_amount (Date 2025 1 15) (str ''2025-01-15 10:00:00'')
          (snd (deposit_amount (str ''2025-01-15 10:00:00'') (first_run (Date 2025 1 15))
             (str ''1002'') (Some (Fin 100000000000000000))))
          (str ''1002'') (Some (Fin 1))) = Success"
    and 4: "map_option balance
     (accounts (snd (withdraw_amount (Date 2025 1 15) (str ''2025-01-15 10:00:00'')
          (snd (deposit_amount (str ''2025-01-15 10:00:00'') (first_run (Date 2025 1 15))
             (str ''1002'') (Some (Fin 100000000000000000))))
          (str ''1002'') (Some (Fin 1)))) (str ''1002''))
     = Some (Fin 100000000000008000)"
    by (simp_all add: withdraw_amount_def deposit_big_1002 Let_def
          reset_daily_withdraw_if_new_day_def save_accounts_def fsub_def rd_big_minus_1)
  have sum: "fadd (Fin 30000) (Fin (1 / 2 ^ 40)) = Fin 30000"
    by (simp only: fadd.simps rd_limit_plus)
  have 5: "fst (withdraw_amount (Date 2025 1 15) (str ''2025-01-15 10:00:00'')
          (snd (withdraw_amount (Date 2025 1 15) (str ''2025-01-15 10:00:00'')
             (snd (deposit_amount (str ''2025-01-15 10:00:00'') (first_run (Date 2025 1 15))
                (str ''1002'') (Some (Fin 30000))))
             (str ''1002'') (Some (Fin 30000))))
          (str ''1002'') (Some (Fin (1 / 2 ^ 40)))) = Success"
  proof (rule withdraw_succeeds [OF at_limit_1002, where b = "Fin 8000" and l = "Fin 30000"
        and wd = "Fin 30000"])
    show "\<not> flt (Fin 30000) (fadd (Fin 30000) (Fin (1 / 2 ^ 40)))"
      by (simp only: sum) simp
  qed (simp_all add: reset_daily_withdraw_if_new_day_def)
  from 1 2 3 4 5 show ?thesis
    by (simp add: deposit_big_1002 at_limit_1002)
qed

text \<open>
  Claim C4, amended. For an existing account and an amount such that the amount, the
  balance, the daily limit and the float sum withdrawn_today + amount (withdrawn_today
  taken after the daily-window reset) are numbers, not NaN: \<open>withdraw_amount\<close> succeeds
  exactly when the amount is greater than 0, at most the balance, and that float sum is
  at most the daily limit (equality is accepted). The error is InvalidAmount,
  InsufficientFunds or DailyLimitExceeded by the first check that rejects, in this order.
  On success the balance is the float difference balance - amount, withdrawn_today is
  the float sum, and last_withdraw_date is today.
\<close>

theorem withdraw_amount_spec:
  assumes "accounts w acc_no = Some a"
    and "amt \<noteq> NaN" and "balance a \<noteq> NaN" and "daily_limit a \<noteq> NaN"
    and "fadd (withdrawn_today (reset_daily_withdraw_if_new_day today a)) amt \<noteq> NaN"
  shows
    "(fst (withdraw_amount today now w acc_no (Some amt)) = Success \<longleftrightarrow>
        flt (Fin 0) amt \<and> fle amt (balance a) \<and>
        fle (fadd (withdrawn_today (reset_daily_withdraw_if_new_day today a)) amt)
          (daily_limit a)) \<and>
     fst (withdraw_amount today now w acc_no (Some amt)) =
       (if fle amt (Fin 0) then InvalidAmount
        else if flt (balance a) amt then InsufficientFunds
        else if flt (daily_limit a)
                  (fadd (withdrawn_today (reset_daily_withdraw_if_new_day today a)) amt)
          then DailyLimitExceeded
        else Success) \<and>
     withdrawn_today (reset_daily_withdraw_if_new_day today a) =
       (if last_withdraw_date a \<noteq> today then Fin 0 else withdrawn_today a) \<and>
     (fst (withdraw_amount today now w acc_no (Some amt)) = Success \<longrightarrow>
        (\<exists>a'. accounts (snd (withdraw_amount today now w acc_no (Some amt))) acc_no = Some a' \<and>
              balance a' = fsub (balance a) amt \<and>
              withdrawn_today a' =
                fadd (withdrawn_today (reset_daily_withdraw_if_new_day today a)) amt \<and>
              last_withdraw_date a' = today))"
proof -
  let ?wd = "withdrawn_today (reset_daily_withdraw_if_new_day today a)"
  have c1: "\<not> fle amt (Fin 0) \<longleftrightarrow> flt (Fin 0) amt"
    using assms(2) by (simp add: not_fle_iff)
  have c2: "\<not> flt (balance a) amt \<longleftrightarrow> fle amt (balance a)"
    using assms(2,3) by (simp add: not_flt_iff)
  have c3: "\<not> flt (daily_limit a) (fadd ?wd amt) \<longleftrightarrow> fle (fadd ?wd amt) (daily_limit a)"
    using assms(4,5) by (simp add: not_flt_iff)
  have out: "fst (withdraw_amount today now w acc_no (Some amt)) =
       (if fle amt (Fin 0) then InvalidAmount
        else if flt (balance a) amt then InsufficientFunds
        else if flt (daily_limit a) (fadd ?wd amt) then DailyLimitExceeded
        else Success)"
    using assms(1) by (simp add: withdraw_amount_def Let_def)
  have eff: "fst (withdraw_amount today now w acc_no (Some amt)) = Success \<longrightarrow>
        (\<exists>a'. accounts (snd (withdraw_amount today now w acc_no (Some amt))) acc_no = Some a' \<and>
              balance a' = fsub (balance a) amt \<and>
              withdrawn_today a' = fadd ?wd amt \<and> last_withdraw_date a' = today)"
    using assms(1) by (simp add: withdraw_amount_def Let_def save_accounts_def)
  have iff: "fst (withdraw_amount today now w acc_no (Some amt)) = Success \<longleftrightarrow>
        flt (Fin 0) amt \<and> fle amt (balance a) \<and> fle (fadd ?wd amt) (daily_limit a)"
    using c1 c2 c3 by (auto simp: out)
  have rs: "?wd = (if last_withdraw_date a \<noteq> today then Fin 0 else withdrawn_today a)"
    by (simp add: reset_daily_withdraw_if_new_day_def)
  from iff out rs eff show ?thesis by blast
qed

theorem withdraw_amount_spec_witness:
  "accounts (first_run (Date 2025 1 15)) (str ''1001'') \<noteq> None \<and>
   fst (withdraw_amount (Date 2025 1 15) (str ''2025-01-15 10:00:00'')
          (first_run (Date 2025 1 15)) (str ''1001'') (Some (Fin 5000))) = Success \<and>
   map_option balance
     (accounts (snd (withdraw_amount (Date 2025 1 15) (str ''2025-01-15 10:00:00'')
        (first_run (Date 2025 1 15)) (str ''1001'') (Some (Fin 5000)))) (str ''1001''))
     = Some (Fin 10000)"
proof -
  let ?w = "first_run (Date 2025 1 15)"
  let ?a = "the (accounts ?w (str ''1001''))"
  have a: "accounts ?w (str ''1001'') = Some ?a" by (simp add: first_run_1001)
  have h: "Fin 5000 \<noteq> NaN" "balance ?a \<noteq> NaN" "daily_limit ?a \<noteq> NaN"
    "fadd (withdrawn_today (reset_daily_withdraw_if_new_day (Date 2025 1 15) ?a)) (Fin 5000)
       \<noteq> NaN"
    by (simp_all add: first_run_1001 reset_daily_withdraw_if_new_day_def)
  note t = withdraw_amount_spec [OF a h, where now = "str ''2025-01-15 10:00:00''"]
  have s: "fst (withdraw_amount (Date 2025 1 15) (str ''2025-01-15 10:00:00'') ?w
             (str ''1001'') (Some (Fin 5000))) = Success"
    using t [THEN conjunct1]
    by (simp add: first_run_1001 reset_daily_withdraw_if_new_day_def)
  from t [THEN conjunct2, THEN conjunct2, THEN conjunct2] s
  have "map_option balance
     (accounts (snd (withdraw_amount (Date 2025 1 15) (str ''2025-01-15 10:00:00'') ?w
        (str ''1001'') (Some (Fin 5000)))) (str ''1001'')) = Some (Fin 10000)"
    by (auto simp: first_run_1001 fsub_def)
  with s show ?thesis by (simp add: first_run_1001)
qed

section \<open>Transfer\<close>

lemma transfer_funds_Success:
  assumes "transfer_funds today now w src tgt amount_in = (Success, w')"
  shows "\<exists>s t amt. accounts w src = Some s \<and> accounts w tgt = Some t \<and> src \<noteq> tgt \<and>
           amount_in = Some amt \<and> \<not> fle amt (Fin 0) \<and>
           w' = save_accounts (w\<lparr>accounts := (accounts w)
                  (src \<mapsto> log_transaction now
                     ((reset_daily_withdraw_if_new_day today s)
                        \<lparr>balance := fsub (balance s) amt,
                         withdrawn_today :=
                           fadd (withdrawn_today (reset_daily_withdraw_if_new_day today s)) amt,
                         last_withdraw_date := today\<rparr>)
                     (str ''transfer_out'') amt (fsub (balance s) amt)
                     (Note (str ''Transfer to '' @ tgt)),
                   tgt \<mapsto> log_transaction now (t\<lparr>balance := fadd (balance t) amt\<rparr>)
                     (str ''transfer_in'') amt (fadd (balance t) amt)
                     (Note (str ''Transfer from '' @ src)))\<rparr>)"
  using assms
  by (auto simp: transfer_funds_def Let_def split: option.splits if_splits)

lemma transfer_funds_failure:
  assumes "transfer_funds today now w src tgt amount_in = (out, w')" "out \<noteq> Success"
  shows "(out \<noteq> InsufficientFunds \<and> out \<noteq> DailyLimitExceeded \<and> w' = w) \<or>
         (\<exists>s. accounts w src = Some s \<and> (out = InsufficientFunds \<or> out = DailyLimitExceeded) \<and>
              w' = w\<lparr>accounts := (accounts w)(src \<mapsto> reset_daily_withdraw_if_new_day today s)\<rparr>)"
  using assms
  by (auto simp: transfer_funds_def Let_def split: option.splits if_splits)

lemma transfer_funds_succeeds:
  assumes "accounts w src = Some s" and "accounts w tgt = Some t" and "tgt \<noteq> src"
    and "balance s = b" and "daily_limit s = l"
    and "withdrawn_today (reset_daily_withdraw_if_new_day d s) = wd"
    and "\<not> fle amt (Fin 0)" and "\<not> flt b amt" and "\<not> flt l (fadd wd amt)"
  shows "fst (transfer_funds d now w src tgt (Some amt)) = Success"
  using assms by (simp add: transfer_funds_def Let_def)

text \<open>
  Claim C1 says that a successful transfer lowers the balance of A by exactly the amount
  and raises that of B by exactly the amount. The source subtracts and adds floats. After
  a deposit of 100000000000000000 account 1002 has the balance 100000000000008000; a
  transfer of 1 from it to account 1001 succeeds, leaves the balance of 1002 as it was
  (the difference is rounded to the nearest double) and raises that of 1001 from 15000
  to 15001.
\<close>

theorem transfer_funds_rounding_counterexample:
  "map_option balance
     (accounts (snd (deposit_amount (str ''2025-01-15 10:00:00'') (first_run (Date 2025 1 15))
          (str ''1002'') (Some (Fin 100000000000000000)))) (str ''1002''))
     = Some (Fin 100000000000008000) \<and>
   map_option balance
     (accounts (snd (deposit_amount (str ''2025-01-15 10:00:00'') (first_run (Date 2025 1 15))
          (str ''1002'') (Some (Fin 100000000000000000)))) (str ''1001''))
     = Some (Fin 15000) \<and>
   fst (transfer_funds (Date 2025 1 15) (str ''2025-01-15 10:05:00'')
          (snd (deposit_amount (str ''2025-01-15 10:00:00'') (first_run (Date 2025 1 15))
             (str ''1002'') (Some (Fin 100000000000000000))))
          (str ''1002'') (str ''1001'') (Some (Fin 1))) = Success \<and>
   map_option balance
     (accounts (snd (transfer_funds (Date 2025 1 15) (str ''2025-01-15 10:05:00'')
          (snd (deposit_amount (str ''2025-01-15 10:00:00'') (first_run (Date 2025 1 15))
             (str ''1002'') (Some (Fin 100000000000000000))))
          (str ''1002'') (str ''1001'') (Some (Fin 1)))) (str ''1002''))
     = Some (Fin 100000000000008000) \<and>
   map_option balance
     (accounts (snd (transfer_funds (Date 2025 1 15) (str ''2025-01-15 10:05:00'')
          (snd (deposit_amount (str ''2025-01-15 10:00:00'') (first_run (Date 2025 1 15))
             (str ''1002'') (Some (Fin 100000000000000000))))
          (str ''1002'') (str ''1001'') (Some (Fin 1)))) (str ''1001''))
     = Some (Fin 15001)"
proof -
  define w1 where "w1 = snd (deposit_amount (str ''2025-01-15 10:00:00'')
     (first_run (Date 2025 1 15)) (str ''1002'') (Some (Fin 100000000000000000)))"
  define r where "r = transfer_funds (Date 2025 1 15) (str ''2025-01-15 10:05:00'') w1
     (str ''1002'') (str ''1001'') (Some (Fin 1))"
  note s = deposit_big_1002 [of "str ''2025-01-15 10:00:00''" "Date 2025 1 15", folded w1_def]
  have t: "accounts w1 (str ''1001'') = accounts (first_run (Date 2025 1 15)) (str ''1001'')"
    unfolding w1_def by (rule deposit_big_1001)
  have 1: "fst r = Success"
    unfolding r_def
    by (rule transfer_funds_succeeds [OF s t [unfolded first_run_1001],
          where b = "Fin 100000000000008000" and l = "Fin 30000" and wd = "Fin 0"])
       (simp_all add: reset_daily_withdraw_if_new_day_def)
  then obtain w' where r: "r = (Success, w')" by (cases r) simp
  from transfer_funds_Success [OF r [unfolded r_def]]
  have 2: "map_option balance (accounts w' (str ''1002'')) = Some (Fin 100000000000008000)"
    and 3: "map_option balance (accounts w' (str ''1001'')) = Some (Fin 15001)"
    by (auto simp: s t first_run_1001 save_accounts_def fsub_def rd_big_minus_1)
  from 1 2 3 r show ?thesis
    by (simp add: r_def w1_def [symmetric] s t first_run_1001)
qed

text \<open>
  Claim C1, amended. When a transfer between two different existing accounts A and B
  succeeds, the balance of A is the float difference balance - amount and the balance
  of B the float sum balance + amount (the exact results rounded to the nearest double);
  the history of A is its old history (cut to the last 49 entries when it was full)
  followed by one new entry of kind transfer_out, and the history of B its old history
  followed by one new entry of kind transfer_in, so each count grows by one below the
  bound of 50; both changes are in the saved ledger. When a transfer fails, whatever the
  reason, no balance and no history of any account changes and nothing is saved.
\<close>

theorem transfer_funds_atomic:
  "(accounts w A = Some a \<and> accounts w B = Some b \<and> A \<noteq> B \<and>
    transfer_funds today now w A B amount_in = (Success, w') \<longrightarrow>
      (\<exists>a' b' ta tb amt. amount_in = Some amt \<and>
         accounts w' A = Some a' \<and> accounts w' B = Some b' \<and>
         balance a' = fsub (balance a) amt \<and> balance b' = fadd (balance b) amt \<and>
         transactions a' = keep_last 49 (transactions a) @ [ta] \<and>
         t_type ta = str ''transfer_out'' \<and> amount ta = amt \<and>
         transactions b' = keep_last 49 (transactions b) @ [tb] \<and>
         t_type tb = str ''transfer_in'' \<and> amount tb = amt \<and>
         (length (transactions a) < 50 \<longrightarrow> length (transactions a') = length (transactions a) + 1) \<and>
         (length (transactions b) < 50 \<longrightarrow> length (transactions b') = length (transactions b) + 1) \<and>
         stored w' = accounts w')) \<and>
   (transfer_funds today now w A B amount_in = (out, w') \<and> out \<noteq> Success \<longrightarrow>
      stored w' = stored w \<and>
      (\<forall>k. map_option balance (accounts w' k) = map_option balance (accounts w k) \<and>
           map_option transactions (accounts w' k) = map_option transactions (accounts w k)))"
proof (intro conjI impI)
  assume h: "accounts w A = Some a \<and> accounts w B = Some b \<and> A \<noteq> B \<and>
    transfer_funds today now w A B amount_in = (Success, w')"
  from transfer_funds_Success [of today now w A B amount_in w'] h
  obtain amt where amt: "amount_in = Some amt"
    and w': "w' = save_accounts (w\<lparr>accounts := (accounts w)
                  (A \<mapsto> log_transaction now
                     ((reset_daily_withdraw_if_new_day today a)
                        \<lparr>balance := fsub (balance a) amt,
                         withdrawn_today :=
                           fadd (withdrawn_today (reset_daily_withdraw_if_new_day today a)) amt,
                         last_withdraw_date := today\<rparr>)
                     (str ''transfer_out'') amt (fsub (balance a) amt)
                     (Note (str ''Transfer to '' @ B)),
                   B \<mapsto> log_transaction now (b\<lparr>balance := fadd (balance b) amt\<rparr>)
                     (str ''transfer_in'') amt (fadd (balance b) amt)
                     (Note (str ''Transfer from '' @ A)))\<rparr>)"
    by auto
  from h have ne: "A \<noteq> B" by simp
  show "\<exists>a' b' ta tb amt. amount_in = Some amt \<and>
         accounts w' A = Some a' \<and> accounts w' B = Some b' \<and>
         balance a' = fsub (balance a) amt \<and> balance b' = fadd (balance b) amt \<and>
         transactions a' = keep_last 49 (transactions a) @ [ta] \<and>
         t_type ta = str ''transfer_out'' \<and> amount ta = amt \<and>
         transactions b' = keep_last 49 (transactions b) @ [tb] \<and>
         t_type tb = str ''transfer_in'' \<and> amount tb = amt \<and>
         (length (transactions a) < 50 \<longrightarrow> length (transactions a') = length (transactions a) + 1) \<and>
         (length (transactions b) < 50 \<longrightarrow> length (transactions b') = length (transactions b) + 1) \<and>
         stored w' = accounts w'"
    using ne
    by (simp add: w' amt save_accounts_def log_transaction_snoc keep_last_length)
next
  assume h: "transfer_funds today now w A B amount_in = (out, w') \<and> out \<noteq> Success"
  from transfer_funds_failure [of today now w A B amount_in out w'] h
  show "stored w' = stored w" by auto
next
  assume h: "transfer_funds today now w A B amount_in = (out, w') \<and> out \<noteq> Success"
  from transfer_funds_failure [of today now w A B amount_in out w'] h
  show "\<forall>k. map_option balance (accounts w' k) = map_option balance (accounts w k) \<and>
           map_option transactions (accounts w' k) = map_option transactions (accounts w k)"
    by auto
qed

theorem transfer_funds_atomic_witness:
  "fst (transfer_funds (Date 2025 1 15) (str ''2025-01-15 10:00:00'') (first_run (Date 2025 1 15))
          (str ''1001'') (str ''1002'') (Some (Fin 5000))) = Success \<and>
   map_option balance (accounts (snd (transfer_funds (Date 2025 1 15) (str ''2025-01-15 10:00:00'')
       (first_run (Date 2025 1 15)) (str ''1001'') (str ''1002'') (Some (Fin 5000))))
       (str ''1001'')) = Some (Fin 10000) \<and>
   map_option balance (accounts (snd (transfer_funds (Date 2025 1 15) (str ''2025-01-15 10:00:00'')
       (first_run (Date 2025 1 15)) (str ''1001'') (str ''1002'') (Some (Fin 5000))))
       (str ''1002'')) = Some (Fin 13000) \<and>
   fst (transfer_funds (Date 2025 1 15) (str ''2025-01-15 10:00:00'') (first_run (Date 2025 1 15))
          (str ''1001'') (str ''1002'') (Some (Fin 16000))) = InsufficientFunds \<and>
   map_option balance (accounts (snd (transfer_funds (Date 2025 1 15) (str ''2025-01-15 10:00:00'')
       (first_run (Date 2025 1 15)) (str ''1001'') (str ''1002'') (Some (Fin 16000))))
       (str ''1001'')) = Some (Fin 15000)"
proof -
  define r where "r = transfer_funds (Date 2025 1 15) (str ''2025-01-15 10:00:00'')
       (first_run (Date 2025 1 15)) (str ''1001'') (str ''1002'') (Some (Fin 5000))"
  define q where "q = transfer_funds (Date 2025 1 15) (str ''2025-01-15 10:00:00'')
       (first_run (Date 2025 1 15)) (str ''1001'') (str ''1002'') (Some (Fin 16000))"
  have "fst r = Success"
    by (simp add: r_def transfer_funds_def first_run_1001 first_run_1002 Let_def
          reset_daily_withdraw_if_new_day_def)
  then obtain w' where r: "r = (Success, w')" by (cases r) simp
  have "fst q = InsufficientFunds"
    by (simp add: q_def transfer_funds_def first_run_1001 first_run_1002 Let_def
          reset_daily_withdraw_if_new_day_def)
  then obtain w'' where q: "q = (InsufficientFunds, w'')" by (cases q) simp
  have 1: "map_option balance (accounts w' (str ''1001'')) = Some (Fin 10000) \<and>
           map_option balance (accounts w' (str ''1002'')) = Some (Fin 13000)"
    using transfer_funds_atomic [of "first_run (Date 2025 1 15)" "str ''1001''"
      "the (accounts (first_run (Date 2025 1 15)) (str ''1001''))" "str ''1002''"
      "the (accounts (first_run (Date 2025 1 15)) (str ''1002''))"
      "Date 2025 1 15" "str ''2025-01-15 10:00:00''" "Some (Fin 5000)" w'] r
    by (auto simp: r_def first_run_1001 first_run_1002 fsub_def)
  have 2: "map_option balance (accounts w'' (str ''1001'')) = Some (Fin 15000)"
    using transfer_funds_atomic [where today = "Date 2025 1 15"
      and now = "str ''2025-01-15 10:00:00''" and w = "first_run (Date 2025 1 15)"
      and A = "str ''1001''" and B = "str ''1002''" and amount_in = "Some (Fin 16000)"
      and out = InsufficientFunds and w' = w''] q
    by (simp add: q_def first_run_1001)
  show ?thesis
    using 1 2 r q by (simp add: r_def q_def)
qed

text \<open>
  Claim C10. A successful transfer changes, in the source account, only balance,
  withdrawn_today, last_withdraw_date and transactions, and in the target account only
  balance and transactions: every other field of the two keeps its value, and every
  other account of the ledger is the same.
\<close>

theorem transfer_funds_frame:
  "transfer_funds today now w src tgt amount_in = (Success, w') \<longrightarrow>
     (\<exists>s t s' t'.
        accounts w src = Some s \<and> accounts w tgt = Some t \<and> src \<noteq> tgt \<and>
        accounts w' src = Some s' \<and> accounts w' tgt = Some t' \<and>
        s' = s\<lparr>balance := balance s', withdrawn_today := withdrawn_today s',
               last_withdraw_date := last_withdraw_date s', transactions := transactions s'\<rparr> \<and>
        t' = t\<lparr>balance := balance t', transactions := transactions t'\<rparr> \<and>
        withdrawn_today t' = withdrawn_today t \<and>
        last_withdraw_date t' = last_withdraw_date t \<and>
        daily_limit t' = daily_limit t \<and> locked t' = locked t \<and>
        failed_attempts t' = failed_attempts t \<and> pin t' = pin t \<and>
        interest_rate t' = interest_rate t \<and>
        last_interest_date t' = last_interest_date t \<and>
        name t' = name t \<and> acc_type t' = acc_type t \<and>
        name s' = name s \<and> pin s' = pin s \<and> acc_type s' = acc_type s \<and>
        failed_attempts s' = failed_attempts s \<and> locked s' = locked s \<and>
        daily_limit s' = daily_limit s \<and> interest_rate s' = interest_rate s \<and>
        last_interest_date s' = last_interest_date s \<and>
        (\<forall>k. k \<noteq> src \<and> k \<noteq> tgt \<longrightarrow> accounts w' k = accounts w k))"
proof
  assume h: "transfer_funds today now w src tgt amount_in = (Success, w')"
  from transfer_funds_Success [OF h]
  obtain s t amt where s: "accounts w src = Some s" and t: "accounts w tgt = Some t"
    and ne: "src \<noteq> tgt"
    and w': "w' = save_accounts (w\<lparr>accounts := (accounts w)
                  (src \<mapsto> log_transaction now
                     ((reset_daily_withdraw_if_new_day today s)
                        \<lparr>balance := fsub (balance s) amt,
                         withdrawn_today :=
                           fadd (withdrawn_today (reset_daily_withdraw_if_new_day today s)) amt,
                         last_withdraw_date := today\<rparr>)
                     (str ''transfer_out'') amt (fsub (balance s) amt)
                     (Note (str ''Transfer to '' @ tgt)),
                   tgt \<mapsto> log_transaction now (t\<lparr>balance := fadd (balance t) amt\<rparr>)
                     (str ''transfer_in'') amt (fadd (balance t) amt)
                     (Note (str ''Transfer from '' @ src)))\<rparr>)"
    by blast
  show "\<exists>s t s' t'.
        accounts w src = Some s \<and> accounts w tgt = Some t \<and> src \<noteq> tgt \<and>
        accounts w' src = Some s' \<and> accounts w' tgt = Some t' \<and>
        s' = s\<lparr>balance := balance s', withdrawn_today := withdrawn_today s',
               last_withdraw_date := last_withdraw_date s', transactions := transactions s'\<rparr> \<and>
        t' = t\<lparr>balance := balance t', transactions := transactions t'\<rparr> \<and>
        withdrawn_today t' = withdrawn_today t \<and>
        last_withdraw_date t' = last_withdraw_date t \<and>
        daily_limit t' = daily_limit t \<and> locked t' = locked t \<and>
        failed_attempts t' = failed_attempts t \<and> pin t' = pin t \<and>
        interest_rate t' = interest_rate t \<and>
        last_interest_date t' = last_interest_date t \<and>
        name t' = name t \<and> acc_type t' = acc_type t \<and>
        name s' = name s \<and> pin s' = pin s \<and> acc_type s' = acc_type s \<and>
        failed_attempts s' = failed_attempts s \<and> locked s' = locked s \<and>
        daily_limit s' = daily_limit s \<and> interest_rate s' = interest_rate s \<and>
        last_interest_date s' = last_interest_date s \<and>
        (\<forall>k. k \<noteq> src \<and> k \<noteq> tgt \<longrightarrow> accounts w' k = accounts w k)"
    using s t ne
    by (simp add: w' save_accounts_def log_transaction_def
          reset_daily_withdraw_if_new_day_def Let_def)
qed

theorem transfer_funds_frame_witness:
  "fst (transfer_funds (Date 2025 1 16) (str ''2025-01-16 09:30:00'') (first_run (Date 2025 1 15))
          (str ''1002'') (str ''1001'') (Some (Fin 500))) = Success \<and>
   map_option daily_limit (accounts (snd (transfer_funds (Date 2025 1 16)
       (str ''2025-01-16 09:30:00'') (first_run (Date 2025 1 15)) (str ''1002'') (str ''1001'')
       (Some (Fin 500)))) (str ''1001'')) = Some (Fin 20000) \<and>
   map_option last_withdraw_date (accounts (snd (transfer_funds (Date 2025 1 16)
       (str ''2025-01-16 09:30:00'') (first_run (Date 2025 1 15)) (str ''1002'') (str ''1001'')
       (Some (Fin 500)))) (str ''1001''))
     = Some (Date 2025 1 15)"
proof -
  define r where "r = transfer_funds (Date 2025 1 16) (str ''2025-01-16 09:30:00'')
       (first_run (Date 2025 1 15)) (str ''1002'') (str ''1001'') (Some (Fin 500))"
  have "fst r = Success"
    by (simp add: r_def transfer_funds_def first_run_1001 first_run_1002 Let_def
          reset_daily_withdraw_if_new_day_def)
  then obtain w' where r: "r = (Success, w')" by (cases r) simp
  have "map_option daily_limit (accounts w' (str ''1001'')) = Some (Fin 20000) \<and>
        map_option last_withdraw_date (accounts w' (str ''1001'')) = Some (Date 2025 1 15)"
    using transfer_funds_frame [where today = "Date 2025 1 16"
      and now = "str ''2025-01-16 09:30:00''" and w = "first_run (Date 2025 1 15)"
      and src = "str ''1002''" and tgt = "str ''1001''" and amount_in = "Some (Fin 500)"
      and w' = w'] r
    by (auto simp: r_def first_run_1001 first_run_1002)
  then show ?thesis
    using r by (simp add: r_def)
qed

section \<open>Interest\<close>













section \<open>Authentication: lockout and saving\<close>

lemma pin_attempt_wrong:
  assumes "accounts w acc_no = Some a" "p \<noteq> pin a"
  shows "pin_attempt w acc_no p =
     (if failed_attempts a + 1 \<ge> 3
      then (Some (Denied AccountLocked),
            save_accounts (w\<lparr>accounts := (accounts w)
              (acc_no \<mapsto> a\<lparr>failed_attempts := failed_attempts a + 1, locked := True\<rparr>)\<rparr>))
      else (None, w\<lparr>accounts := (accounts w)
              (acc_no \<mapsto> a\<lparr>failed_attempts := failed_attempts a + 1\<rparr>)\<rparr>))"
  using assms by (simp add: pin_attempt_def Let_def)

lemma pin_attempt_right:
  assumes "accounts w acc_no = Some a"
  shows "pin_attempt w acc_no (pin a) =
     (Some (Session acc_no),
      save_accounts (w\<lparr>accounts := (accounts w)(acc_no \<mapsto> a\<lparr>failed_attempts := 0\<rparr>)\<rparr>))"
  using assms by (simp add: pin_attempt_def)

text \<open>Wrong PINs typed while the counter stays below 3, then the right one.\<close>

lemma pin_loop_wrong_then_right:
  assumes "accounts w acc_no = Some a"
    and "list_all (\<lambda>p. p \<noteq> pin a) wrong"
    and "failed_attempts a + int (length wrong) < 3"
    and "length wrong < n"
  shows "pin_loop n w acc_no (wrong @ pin a # rest) =
           (Session acc_no,
            save_accounts (w\<lparr>accounts := (accounts w)(acc_no \<mapsto> a\<lparr>failed_attempts := 0\<rparr>)\<rparr>))"
  using assms
proof (induction wrong arbitrary: n w a)
  case Nil
  then obtain m where n: "n = Suc m" by (cases n) auto
  show ?case
    by (simp add: n pin_attempt_right [OF Nil.prems(1)] del: fun_upd_apply)
next
  case (Cons p ps)
  then obtain m where n: "n = Suc m" by (cases n) auto
  let ?a = "a\<lparr>failed_attempts := failed_attempts a + 1\<rparr>"
  let ?w = "w\<lparr>accounts := (accounts w)(acc_no \<mapsto> ?a)\<rparr>"
  from Cons.prems have step: "pin_attempt w acc_no p = (None, ?w)"
    by (simp add: pin_attempt_wrong)
  have "pin_loop m ?w acc_no (ps @ pin ?a # rest) =
          (Session acc_no,
           save_accounts (?w\<lparr>accounts := (accounts ?w)(acc_no \<mapsto> ?a\<lparr>failed_attempts := 0\<rparr>)\<rparr>))"
    using Cons.prems n by (intro Cons.IH) auto
  then show ?case
    by (simp add: n step del: fun_upd_apply)
qed

text \<open>Wrong PINs only: the account is locked when the counter reaches 3.\<close>

lemma pin_loop_all_wrong:
  assumes "accounts w acc_no = Some a"
    and "list_all (\<lambda>p. p \<noteq> pin a) (take n pins)"
    and "0 \<le> failed_attempts a"
    and "3 \<le> failed_attempts a + int n"
    and "0 < n"
    and "n \<le> length pins"
  shows "pin_loop n w acc_no pins =
           (Denied AccountLocked,
            save_accounts (w\<lparr>accounts := (accounts w)
              (acc_no \<mapsto> a\<lparr>failed_attempts := max (failed_attempts a + 1) 3, locked := True\<rparr>)\<rparr>))"
  using assms
proof (induction n arbitrary: w a pins)
  case 0
  then show ?case by simp
next
  case (Suc n)
  from Suc.prems obtain p ps where pins: "pins = p # ps" by (cases pins) auto
  let ?a = "a\<lparr>failed_attempts := failed_attempts a + 1\<rparr>"
  let ?w = "w\<lparr>accounts := (accounts w)(acc_no \<mapsto> ?a)\<rparr>"
  show ?case
  proof (cases "failed_attempts a + 1 \<ge> 3")
    case True
    have "p \<noteq> pin a" using Suc.prems by (simp add: pins)
    from pin_attempt_wrong [OF Suc.prems(1) this] True show ?thesis
      by (simp add: pins max_def del: fun_upd_apply)
  next
    case False
    with Suc.prems have step: "pin_attempt w acc_no p = (None, ?w)"
      by (simp add: pins pin_attempt_wrong)
    have "pin_loop n ?w acc_no ps =
           (Denied AccountLocked,
            save_accounts (?w\<lparr>accounts := (accounts ?w)
              (acc_no \<mapsto> ?a\<lparr>failed_attempts := max (failed_attempts ?a + 1) 3, locked := True\<rparr>)\<rparr>))"
      using Suc.prems False by (intro Suc.IH) (auto simp: pins)
    then show ?thesis
      using False by (simp add: pins step max_def del: fun_upd_apply)
  qed
qed

lemma pin_attempt_keeps_account:
  "accounts w acc_no \<noteq> None \<Longrightarrow> accounts (snd (pin_attempt w acc_no p)) acc_no \<noteq> None"
  by (auto simp: pin_attempt_def Let_def save_accounts_def)

lemma pin_attempt_returns_saved:
  "pin_attempt w acc_no p = (Some r, w') \<Longrightarrow> r \<noteq> Denied KeyError \<Longrightarrow> stored w' = accounts w'"
  by (auto simp: pin_attempt_def Let_def save_accounts_def split: option.splits if_splits)

lemma pin_attempt_goes_on:
  "pin_attempt w acc_no p = (None, w') \<Longrightarrow>
     stored w' = stored w \<and>
     (\<exists>a. accounts w acc_no = Some a \<and> p \<noteq> pin a \<and> failed_attempts a + 1 < 3 \<and>
          accounts w' = (accounts w)(acc_no \<mapsto> a\<lparr>failed_attempts := failed_attempts a + 1\<rparr>))"
  by (auto simp: pin_attempt_def Let_def save_accounts_def split: option.splits if_splits)

lemma pin_attempt_no_KeyError:
  "accounts w acc_no \<noteq> None \<Longrightarrow> fst (pin_attempt w acc_no p) \<noteq> Some (Denied KeyError)"
  by (auto simp: pin_attempt_def Let_def split: if_splits)

lemma pin_loop_returns_saved:
  "accounts w acc_no \<noteq> None \<Longrightarrow> pin_loop n w acc_no pins = (r, w') \<Longrightarrow>
     r \<noteq> Denied EOFError \<Longrightarrow> stored w' = accounts w'"
proof (induction n arbitrary: w pins)
  case 0
  then show ?case by (auto simp: save_accounts_def)
next
  case (Suc n)
  from Suc.prems obtain p ps where pins: "pins = p # ps" by (cases pins) auto
  obtain x w1 where step: "pin_attempt w acc_no p = (x, w1)" by (cases "pin_attempt w acc_no p")
  show ?case
  proof (cases x)
    case None
    have "accounts w1 acc_no \<noteq> None"
      using pin_attempt_keeps_account [OF Suc.prems(1), of p] step by simp
    moreover have "pin_loop n w1 acc_no ps = (r, w')"
      using Suc.prems(2) by (simp add: pins step None)
    ultimately show ?thesis using Suc.IH Suc.prems(3) by blast
  next
    case (Some y)
    have "y \<noteq> Denied KeyError"
      using pin_attempt_no_KeyError [OF Suc.prems(1), of p] step Some by simp
    moreover have "y = r" "w1 = w'" using Suc.prems(2) by (simp_all add: pins step Some)
    ultimately show ?thesis using pin_attempt_returns_saved step Some by blast
  qed
qed

text \<open>
  Claim C5. For an existing, unlocked account whose counter of failed attempts is not
  negative: three wrong PINs typed in one call of \<open>authenticate\<close> end the call with
  AccountLocked and the account locked, and saved so. From a counter of 0 the first two
  wrong PINs leave the account unlocked (counter 2), so the lock falls exactly on the
  third. When the right PIN is typed after wrong ones that leave the counter below 3
  (from a counter of 0: after at most two wrong PINs), the call returns the account
  number, the counter is 0 again and the account is not locked. The counter of an
  unlocked account is 0 at the start of every call in the ledgers that the program
  reaches (\<open>run_fresh\<close> below) and never negative (\<open>run_counters\<close>).
\<close>

theorem authenticate_lockout:
  assumes "accounts w acc_no = Some a" and "\<not> locked a" and "0 \<le> failed_attempts a"
  shows
    "(p1 \<noteq> pin a \<and> p2 \<noteq> pin a \<and> p3 \<noteq> pin a \<longrightarrow>
        (\<exists>w' a'. authenticate w acc_no (p1 # p2 # p3 # rest) = (Denied AccountLocked, w') \<and>
           accounts w' acc_no = Some a' \<and> locked a' \<and> stored w' = accounts w')) \<and>
     (failed_attempts a = 0 \<and> p1 \<noteq> pin a \<and> p2 \<noteq> pin a \<longrightarrow>
        (\<exists>w1 w2 a2. pin_attempt w acc_no p1 = (None, w1) \<and>
           pin_attempt w1 acc_no p2 = (None, w2) \<and>
           accounts w2 acc_no = Some a2 \<and> \<not> locked a2 \<and> failed_attempts a2 = 2)) \<and>
     (failed_attempts a = 0 \<and> list_all (\<lambda>p. p \<noteq> pin a) wrong \<and> length wrong < 3 \<longrightarrow>
        (\<exists>w' a'. authenticate w acc_no (wrong @ pin a # rest) = (Session acc_no, w') \<and>
           accounts w' acc_no = Some a' \<and> failed_attempts a' = 0 \<and> \<not> locked a' \<and>
           stored w' = accounts w')) \<and>
     (list_all (\<lambda>p. p \<noteq> pin a) wrong \<and> failed_attempts a + int (length wrong) < 3 \<longrightarrow>
        (\<exists>w' a'. authenticate w acc_no (wrong @ pin a # rest) = (Session acc_no, w') \<and>
           accounts w' acc_no = Some a' \<and> failed_attempts a' = 0 \<and> \<not> locked a' \<and>
           stored w' = accounts w'))"
proof (intro conjI impI)
  assume h: "p1 \<noteq> pin a \<and> p2 \<noteq> pin a \<and> p3 \<noteq> pin a"
  have "pin_loop 3 w acc_no (p1 # p2 # p3 # rest) =
           (Denied AccountLocked,
            save_accounts (w\<lparr>accounts := (accounts w)
              (acc_no \<mapsto> a\<lparr>failed_attempts := max (failed_attempts a + 1) 3, locked := True\<rparr>)\<rparr>))"
    using assms h by (intro pin_loop_all_wrong) (auto simp: numeral_3_eq_3)
  then show "\<exists>w' a'. authenticate w acc_no (p1 # p2 # p3 # rest) = (Denied AccountLocked, w') \<and>
           accounts w' acc_no = Some a' \<and> locked a' \<and> stored w' = accounts w'"
    using assms by (simp add: authenticate_def save_accounts_def)
next
  assume h: "failed_attempts a = 0 \<and> p1 \<noteq> pin a \<and> p2 \<noteq> pin a"
  show "\<exists>w1 w2 a2. pin_attempt w acc_no p1 = (None, w1) \<and>
           pin_attempt w1 acc_no p2 = (None, w2) \<and>
           accounts w2 acc_no = Some a2 \<and> \<not> locked a2 \<and> failed_attempts a2 = 2"
    using assms h by (simp add: pin_attempt_def Let_def)
next
  assume h: "failed_attempts a = 0 \<and> list_all (\<lambda>p. p \<noteq> pin a) wrong \<and> length wrong < 3"
  with assms have "pin_loop 3 w acc_no (wrong @ pin a # rest) =
           (Session acc_no,
            save_accounts (w\<lparr>accounts := (accounts w)(acc_no \<mapsto> a\<lparr>failed_attempts := 0\<rparr>)\<rparr>))"
    by (intro pin_loop_wrong_then_right) auto
  then show "\<exists>w' a'. authenticate w acc_no (wrong @ pin a # rest) = (Session acc_no, w') \<and>
           accounts w' acc_no = Some a' \<and> failed_attempts a' = 0 \<and> \<not> locked a' \<and>
           stored w' = accounts w'"
    using assms by (simp add: authenticate_def save_accounts_def)
next
  assume h: "list_all (\<lambda>p. p \<noteq> pin a) wrong \<and> failed_attempts a + int (length wrong) < 3"
  with assms have "length wrong < 3" by linarith
  with assms h have "pin_loop 3 w acc_no (wrong @ pin a # rest) =
           (Session acc_no,
            save_accounts (w\<lparr>accounts := (accounts w)(acc_no \<mapsto> a\<lparr>failed_attempts := 0\<rparr>)\<rparr>))"
    by (intro pin_loop_wrong_then_right) auto
  then show "\<exists>w' a'. authenticate w acc_no (wrong @ pin a # rest) = (Session acc_no, w') \<and>
           accounts w' acc_no = Some a' \<and> failed_attempts a' = 0 \<and> \<not> locked a' \<and>
           stored w' = accounts w'"
    using assms by (simp add: authenticate_def save_accounts_def)
qed

theorem authenticate_lockout_witness:
  "fst (authenticate (first_run (Date 2025 1 15)) (str ''1001'') [(str ''0000''), (str ''1111''), (str ''2222'')])
     = Denied AccountLocked \<and>
   map_option locked (accounts (snd (authenticate (first_run (Date 2025 1 15)) (str ''1001'')
       [(str ''0000''), (str ''1111''), (str ''2222'')])) (str ''1001'')) = Some True \<and>
   fst (authenticate (first_run (Date 2025 1 15)) (str ''1001'') [(str ''0000''), (str ''1234'')])
     = Session (str ''1001'') \<and>
   map_option failed_attempts (accounts (snd (authenticate (first_run (Date 2025 1 15)) (str ''1001'')
       [(str ''0000''), (str ''1234'')])) (str ''1001'')) = Some 0"
proof -
  let ?w = "first_run (Date 2025 1 15)"
  let ?a = "the (accounts ?w (str ''1001''))"
  have a: "accounts ?w (str ''1001'') = Some ?a" "\<not> locked ?a" "0 \<le> failed_attempts ?a"
    by (simp_all add: first_run_1001)
  note t = authenticate_lockout [OF a]
  have 1: "\<exists>w' a'. authenticate ?w (str ''1001'') [(str ''0000''), (str ''1111''), (str ''2222'')] = (Denied AccountLocked, w') \<and>
           accounts w' (str ''1001'') = Some a' \<and> locked a' \<and> stored w' = accounts w'"
    using t [where ?p1.0 = "(str ''0000'')" and ?p2.0 = "(str ''1111'')" and ?p3.0 = "(str ''2222'')"
        and rest = "[]", THEN conjunct1]
    by (simp add: first_run_1001)
  have 2: "\<exists>w' a'. authenticate ?w (str ''1001'') [(str ''0000''), (str ''1234'')] = (Session (str ''1001''), w') \<and>
           accounts w' (str ''1001'') = Some a' \<and> failed_attempts a' = 0 \<and> \<not> locked a' \<and>
           stored w' = accounts w'"
    using t [where wrong = "[(str ''0000'')]" and rest = "[]", THEN conjunct2, THEN conjunct2,
        THEN conjunct1]
    by (simp add: first_run_1001)
  from 1 2 show ?thesis by auto
qed

text \<open>
  Claim C9 says that the data file is written after every single PIN submission. It is
  not: a wrong PIN that does not lock the account is counted in memory only. After one
  wrong PIN on the first-run ledger the counter of account 1001 is 1 in memory and 0 in
  the data file.
\<close>

theorem pin_attempt_unsaved_counterexample:
  "fst (pin_attempt (first_run (Date 2025 1 15)) (str ''1001'') (str ''0000'')) = None \<and>
   map_option failed_attempts
     (accounts (snd (pin_attempt (first_run (Date 2025 1 15)) (str ''1001'') (str ''0000''))) (str ''1001'')) = Some 1 \<and>
   map_option failed_attempts
     (stored (snd (pin_attempt (first_run (Date 2025 1 15)) (str ''1001'') (str ''0000''))) (str ''1001'')) = Some 0 \<and>
   stored (snd (pin_attempt (first_run (Date 2025 1 15)) (str ''1001'') (str ''0000''))) \<noteq>
   accounts (snd (pin_attempt (first_run (Date 2025 1 15)) (str ''1001'') (str ''0000'')))"
proof -
  define r where "r = pin_attempt (first_run (Date 2025 1 15)) (str ''1001'') (str ''0000'')"
  have 1: "fst r = None"
    and 2: "map_option failed_attempts (accounts (snd r) (str ''1001'')) = Some 1"
    by (simp_all add: r_def pin_attempt_def first_run_1001 Let_def)
  have 3: "map_option failed_attempts (stored (snd r) (str ''1001'')) = Some 0"
    by (simp add: r_def pin_attempt_def first_run_1001 Let_def)
       (simp add: first_run_def save_accounts_def create_default_accounts_def)
  from 2 3 have "stored (snd r) \<noteq> accounts (snd r)" by auto
  with 1 2 3 show ?thesis by (simp add: r_def)
qed

text \<open>
  Claim C9, amended. The data file is written when the sequence of submissions ends:
  every return of \<open>authenticate\<close> reached through the PIN loop (the right PIN, the lock,
  or three wrong PINs without a lock) leaves the data file equal to the dictionary in
  memory, and so does every submission that ends the loop. A wrong PIN that does not end
  the loop only adds 1 to the counter in memory and writes nothing; it is saved by the
  write that ends the sequence.
\<close>

theorem authenticate_saves_at_exit:
  "(accounts w acc_no = Some a \<and> \<not> locked a \<and> authenticate w acc_no pins = (r, w') \<and>
      r \<noteq> Denied EOFError \<longrightarrow> stored w' = accounts w') \<and>
   (accounts w acc_no = Some a \<and> pin_attempt w acc_no p = (Some r, w') \<longrightarrow>
      stored w' = accounts w') \<and>
   (pin_attempt w acc_no p = (None, w') \<longrightarrow>
      stored w' = stored w \<and>
      (\<exists>b. accounts w acc_no = Some b \<and> p \<noteq> pin b \<and> failed_attempts b + 1 < 3 \<and>
           accounts w' = (accounts w)(acc_no \<mapsto> b\<lparr>failed_attempts := failed_attempts b + 1\<rparr>)))"
proof (intro conjI impI)
  assume h: "accounts w acc_no = Some a \<and> \<not> locked a \<and> authenticate w acc_no pins = (r, w') \<and>
      r \<noteq> Denied EOFError"
  then have "pin_loop 3 w acc_no pins = (r, w')" by (auto simp: authenticate_def)
  with h show "stored w' = accounts w'"
    using pin_loop_returns_saved [of w acc_no 3 pins r w'] by simp
next
  assume h: "accounts w acc_no = Some a \<and> pin_attempt w acc_no p = (Some r, w')"
  then have "r \<noteq> Denied KeyError"
    using pin_attempt_no_KeyError [of w acc_no p] by auto
  with h show "stored w' = accounts w'"
    using pin_attempt_returns_saved by blast
next
  assume "pin_attempt w acc_no p = (None, w')"
  then show "stored w' = stored w"
    using pin_attempt_goes_on by blast
next
  assume "pin_attempt w acc_no p = (None, w')"
  then show "\<exists>b. accounts w acc_no = Some b \<and> p \<noteq> pin b \<and> failed_attempts b + 1 < 3 \<and>
           accounts w' = (accounts w)(acc_no \<mapsto> b\<lparr>failed_attempts := failed_attempts b + 1\<rparr>)"
    using pin_attempt_goes_on by blast
qed

theorem authenticate_saves_at_exit_witness:
  "fst (authenticate (first_run (Date 2025 1 15)) (str ''1002'') [(str ''0000''), (str ''4321'')])
     = Session (str ''1002'') \<and>
   stored (snd (authenticate (first_run (Date 2025 1 15)) (str ''1002'') [(str ''0000''), (str ''4321'')])) =
   accounts (snd (authenticate (first_run (Date 2025 1 15)) (str ''1002'') [(str ''0000''), (str ''4321'')]))"
proof -
  define r where "r = authenticate (first_run (Date 2025 1 15)) (str ''1002'') [(str ''0000''), (str ''4321'')]"
  have 1: "fst r = Session (str ''1002'')"
    by (simp add: r_def authenticate_def pin_attempt_def first_run_1002 Let_def numeral_3_eq_3)
  then obtain w' where r: "r = (Session (str ''1002''), w')" by (cases r) simp
  have "stored w' = accounts w'"
    using authenticate_saves_at_exit [where w = "first_run (Date 2025 1 15)"
        and acc_no = "(str ''1002'')" and a = "the (accounts (first_run (Date 2025 1 15)) (str ''1002''))"
        and pins = "[(str ''0000''), (str ''4321'')]" and r = "Session (str ''1002'')" and w' = w', THEN conjunct1]
      r
    by (simp add: r_def first_run_1002)
  with r show ?thesis by (simp add: r_def)
qed

section \<open>Failed operations\<close>

lemma world_accounts_same: "accounts w k = Some a \<Longrightarrow> w\<lparr>accounts := (accounts w)(k \<mapsto> a)\<rparr> = w"
  by (simp add: map_upd_triv)

lemma deposit_amount_failure:
  "deposit_amount now w acc_no amount_in = (out, w') \<Longrightarrow> out \<noteq> Success \<Longrightarrow> w' = w"
  by (auto simp: deposit_amount_def Let_def split: option.splits if_splits)

lemma apply_interest_failure:
  "apply_interest_if_savings today now w acc_no = (out, w') \<Longrightarrow> out \<noteq> Success \<Longrightarrow> w' = w"
  by (auto simp: apply_interest_if_savings_def Let_def split: option.splits if_splits)

lemma withdraw_amount_failure:
  assumes "withdraw_amount today now w acc_no amount_in = (out, w')" "out \<noteq> Success"
  shows "(out \<noteq> InsufficientFunds \<and> out \<noteq> DailyLimitExceeded \<and> w' = w) \<or>
         (\<exists>a. accounts w acc_no = Some a \<and> (out = InsufficientFunds \<or> out = DailyLimitExceeded) \<and>
              w' = w\<lparr>accounts := (accounts w)(acc_no \<mapsto> reset_daily_withdraw_if_new_day today a)\<rparr>)"
  using assms
  by (auto simp: withdraw_amount_def Let_def split: option.splits if_splits)

text \<open>What a rejected withdrawal or transfer leaves, from the two cases above.\<close>

lemma rejected_frame:
  assumes "(out \<noteq> InsufficientFunds \<and> out \<noteq> DailyLimitExceeded \<and> w' = w) \<or>
         (\<exists>a. accounts w acc_no = Some a \<and> (out = InsufficientFunds \<or> out = DailyLimitExceeded) \<and>
              w' = w\<lparr>accounts := (accounts w)(acc_no \<mapsto> reset_daily_withdraw_if_new_day today a)\<rparr>)"
  shows "stored w' = stored w \<and>
      (\<forall>k. map_option balance (accounts w' k) = map_option balance (accounts w k) \<and>
           map_option transactions (accounts w' k) = map_option transactions (accounts w k)) \<and>
      (if out = InsufficientFunds \<or> out = DailyLimitExceeded
       then \<exists>a. accounts w acc_no = Some a \<and>
              accounts w' = (accounts w)
                (acc_no \<mapsto> (if last_withdraw_date a \<noteq> today
                             then a\<lparr>withdrawn_today := Fin 0, last_withdraw_date := today\<rparr>
                             else a))
       else w' = w)"
  using assms
proof
  assume "out \<noteq> InsufficientFunds \<and> out \<noteq> DailyLimitExceeded \<and> w' = w"
  then show ?thesis by simp
next
  assume "\<exists>a. accounts w acc_no = Some a \<and> (out = InsufficientFunds \<or> out = DailyLimitExceeded) \<and>
              w' = w\<lparr>accounts := (accounts w)(acc_no \<mapsto> reset_daily_withdraw_if_new_day today a)\<rparr>"
  then obtain a where a: "accounts w acc_no = Some a"
    and out: "out = InsufficientFunds \<or> out = DailyLimitExceeded"
    and w': "w' = w\<lparr>accounts := (accounts w)(acc_no \<mapsto> reset_daily_withdraw_if_new_day today a)\<rparr>"
    by blast
  have 1: "stored w' = stored w" by (simp add: w')
  have 2: "\<forall>k. map_option balance (accounts w' k) = map_option balance (accounts w k) \<and>
           map_option transactions (accounts w' k) = map_option transactions (accounts w k)"
    using a by (simp add: w')
  have 3: "accounts w' = (accounts w)
                (acc_no \<mapsto> (if last_withdraw_date a \<noteq> today
                             then a\<lparr>withdrawn_today := Fin 0, last_withdraw_date := today\<rparr>
                             else a))"
    by (simp add: w' reset_daily_withdraw_if_new_day_def)
  from 1 2 3 a out show ?thesis by auto
qed

text \<open>
  Claim C2 says that a state-changing operation that fails a validation leaves the
  ledger exactly as it was. \<open>withdraw_amount\<close> and \<open>transfer_funds\<close> call
  \<open>reset_daily_withdraw_if_new_day\<close> before they check the balance and the daily
  limit, so a call rejected by one of these two checks on a new day has already reset
  two fields of the account in memory. Account 1001 withdraws 5000 on 15 January; the
  next day a withdrawal of 20000 is rejected with InsufficientFunds, and withdrawn_today
  has gone from 5000 to 0.
\<close>

lemma after_withdraw_1001:
  "accounts (snd (withdraw_amount d now (first_run d) (str ''1001'') (Some (Fin 5000))))
     (str ''1001'') =
     Some \<lparr>name = str ''Rahul Sharma'', pin = str ''1234'', balance = Fin 10000,
         acc_type = str ''savings'',
         transactions = [\<lparr>time = now, t_type = str ''withdraw'', amount = Fin 5000,
            balance_after = Fin 10000, t_note = Note (str ''Cash withdrawal'')\<rparr>],
         failed_attempts = 0,
         locked = False, daily_limit = Fin 20000, withdrawn_today = Fin 5000,
         last_withdraw_date = d, interest_rate = rd (4 / 100),
         last_interest_date = d\<rparr>"
  by (simp add: withdraw_amount_def first_run_1001 Let_def fsub_def
        reset_daily_withdraw_if_new_day_def log_transaction_def save_accounts_def)

lemma withdraw_rejected:
  assumes "accounts w k = Some a" and "\<not> fle amt (Fin 0)" and "flt (balance a) amt"
  shows "withdraw_amount d now w k (Some amt) =
           (InsufficientFunds,
            w\<lparr>accounts := (accounts w)(k \<mapsto> reset_daily_withdraw_if_new_day d a)\<rparr>)"
  using assms by (simp add: withdraw_amount_def Let_def)

theorem failed_withdraw_resets_counterexample:
  "fst (withdraw_amount (Date 2025 1 16) (str ''2025-01-16 09:00:00'')
          (snd (withdraw_amount (Date 2025 1 15) (str ''2025-01-15 10:00:00'')
                  (first_run (Date 2025 1 15)) (str ''1001'') (Some (Fin 5000))))
          (str ''1001'') (Some (Fin 20000))) = InsufficientFunds \<and>
   map_option withdrawn_today
     (accounts (snd (withdraw_amount (Date 2025 1 15) (str ''2025-01-15 10:00:00'')
                  (first_run (Date 2025 1 15)) (str ''1001'') (Some (Fin 5000)))) (str ''1001''))
     = Some (Fin 5000) \<and>
   map_option withdrawn_today
     (accounts (snd (withdraw_amount (Date 2025 1 16) (str ''2025-01-16 09:00:00'')
          (snd (withdraw_amount (Date 2025 1 15) (str ''2025-01-15 10:00:00'')
                  (first_run (Date 2025 1 15)) (str ''1001'') (Some (Fin 5000))))
          (str ''1001'') (Some (Fin 20000)))) (str ''1001'')) = Some (Fin 0) \<and>
   accounts (snd (withdraw_amount (Date 2025 1 16) (str ''2025-01-16 09:00:00'')
          (snd (withdraw_amount (Date 2025 1 15) (str ''2025-01-15 10:00:00'')
                  (first_run (Date 2025 1 15)) (str ''1001'') (Some (Fin 5000))))
          (str ''1001'') (Some (Fin 20000)))) \<noteq>
   accounts (snd (withdraw_amount (Date 2025 1 15) (str ''2025-01-15 10:00:00'')
                  (first_run (Date 2025 1 15)) (str ''1001'') (Some (Fin 5000))))"
proof -
  define w1 where "w1 = snd (withdraw_amount (Date 2025 1 15) (str ''2025-01-15 10:00:00'')
                  (first_run (Date 2025 1 15)) (str ''1001'') (Some (Fin 5000)))"
  define r where "r = withdraw_amount (Date 2025 1 16) (str ''2025-01-16 09:00:00'') w1
                  (str ''1001'') (Some (Fin 20000))"
  note a1 = after_withdraw_1001 [of "Date 2025 1 15" "str ''2025-01-15 10:00:00''",
      folded w1_def]
  have r: "r = (InsufficientFunds,
            w1\<lparr>accounts := (accounts w1)(str ''1001'' \<mapsto>
              reset_daily_withdraw_if_new_day (Date 2025 1 16)
                (the (accounts w1 (str ''1001''))))\<rparr>)"
    unfolding r_def
    by (rule withdraw_rejected) (simp_all add: a1)
  have 1: "fst r = InsufficientFunds" by (simp only: r fst_conv)
  have 2: "map_option withdrawn_today (accounts (snd r) (str ''1001'')) = Some (Fin 0)"
    by (simp only: r snd_conv) (simp add: a1 reset_daily_withdraw_if_new_day_def)
  have 3: "map_option withdrawn_today (accounts w1 (str ''1001'')) = Some (Fin 5000)"
    by (simp add: a1)
  from 2 3 have "accounts (snd r) \<noteq> accounts w1" by auto
  with 1 2 3 show ?thesis by (simp add: r_def w1_def)
qed

text \<open>
  Claim C2, amended. A Deposit or AccrueInterest that does not succeed leaves the whole
  state as it was. A Withdraw or Transfer that does not succeed writes nothing to the
  data file and changes no balance and no transaction list. When it is rejected with
  InsufficientFunds or DailyLimitExceeded, the daily-window reset has been applied to
  the (source) account in memory: if its last_withdraw_date was not today, it has
  withdrawn_today = 0 and last_withdraw_date = today afterwards; nothing else has
  changed. When it fails for another reason, the state is as it was.
\<close>

theorem failed_operation_frame:
  "(deposit_amount now w acc_no amount_in = (out, w') \<and> out \<noteq> Success \<longrightarrow> w' = w) \<and>
   (apply_interest_if_savings today now w acc_no = (out, w') \<and> out \<noteq> Success \<longrightarrow> w' = w) \<and>
   (withdraw_amount today now w acc_no amount_in = (out, w') \<and> out \<noteq> Success \<longrightarrow>
      stored w' = stored w \<and>
      (\<forall>k. map_option balance (accounts w' k) = map_option balance (accounts w k) \<and>
           map_option transactions (accounts w' k) = map_option transactions (accounts w k)) \<and>
      (if out = InsufficientFunds \<or> out = DailyLimitExceeded
       then \<exists>a. accounts w acc_no = Some a \<and>
              accounts w' = (accounts w)
                (acc_no \<mapsto> (if last_withdraw_date a \<noteq> today
                             then a\<lparr>withdrawn_today := Fin 0, last_withdraw_date := today\<rparr>
                             else a))
       else w' = w)) \<and>
   (transfer_funds today now w acc_no tgt amount_in = (out, w') \<and> out \<noteq> Success \<longrightarrow>
      stored w' = stored w \<and>
      (\<forall>k. map_option balance (accounts w' k) = map_option balance (accounts w k) \<and>
           map_option transactions (accounts w' k) = map_option transactions (accounts w k)) \<and>
      (if out = InsufficientFunds \<or> out = DailyLimitExceeded
       then \<exists>a. accounts w acc_no = Some a \<and>
              accounts w' = (accounts w)
                (acc_no \<mapsto> (if last_withdraw_date a \<noteq> today
                             then a\<lparr>withdrawn_today := Fin 0, last_withdraw_date := today\<rparr>
                             else a))
       else w' = w))"
proof (intro conjI impI)
  assume "deposit_amount now w acc_no amount_in = (out, w') \<and> out \<noteq> Success"
  then show "w' = w" using deposit_amount_failure by blast
next
  assume "apply_interest_if_savings today now w acc_no = (out, w') \<and> out \<noteq> Success"
  then show "w' = w" using apply_interest_failure by blast
next
  assume h: "withdraw_amount today now w acc_no amount_in = (out, w') \<and> out \<noteq> Success"
  note f = rejected_frame [OF withdraw_amount_failure [of today now w acc_no amount_in out w']]
  from f h show "stored w' = stored w" by blast
  from f h show "\<forall>k. map_option balance (accounts w' k) = map_option balance (accounts w k) \<and>
           map_option transactions (accounts w' k) = map_option transactions (accounts w k)"
    by blast
  from f h show "if out = InsufficientFunds \<or> out = DailyLimitExceeded
       then \<exists>a. accounts w acc_no = Some a \<and>
              accounts w' = (accounts w)
                (acc_no \<mapsto> (if last_withdraw_date a \<noteq> today
                             then a\<lparr>withdrawn_today := Fin 0, last_withdraw_date := today\<rparr>
                             else a))
       else w' = w"
    by blast
next
  assume h: "transfer_funds today now w acc_no tgt amount_in = (out, w') \<and> out \<noteq> Success"
  note f = rejected_frame [OF transfer_funds_failure [of today now w acc_no tgt amount_in out w']]
  from f h show "stored w' = stored w" by blast
  from f h show "\<forall>k. map_option balance (accounts w' k) = map_option balance (accounts w k) \<and>
           map_option transactions (accounts w' k) = map_option transactions (accounts w k)"
    by blast
  from f h show "if out = InsufficientFunds \<or> out = DailyLimitExceeded
       then \<exists>a. accounts w acc_no = Some a \<and>
              accounts w' = (accounts w)
                (acc_no \<mapsto> (if last_withdraw_date a \<noteq> today
                             then a\<lparr>withdrawn_today := Fin 0, last_withdraw_date := today\<rparr>
                             else a))
       else w' = w"
    by blast
qed

theorem failed_operation_frame_witness:
  "fst (withdraw_amount (Date 2025 1 16) (str ''2025-01-16 09:00:00'') (first_run (Date 2025 1 15))
          (str ''1001'') (Some (Fin 16000))) = InsufficientFunds \<and>
   map_option (\<lambda>a. (withdrawn_today a, last_withdraw_date a, balance a))
     (accounts (snd (withdraw_amount (Date 2025 1 16) (str ''2025-01-16 09:00:00'')
          (first_run (Date 2025 1 15)) (str ''1001'') (Some (Fin 16000)))) (str ''1001''))
     = Some (Fin 0, Date 2025 1 16, Fin 15000) \<and>
   stored (snd (withdraw_amount (Date 2025 1 16) (str ''2025-01-16 09:00:00'')
          (first_run (Date 2025 1 15)) (str ''1001'') (Some (Fin 16000))))
     = stored (first_run (Date 2025 1 15))"
proof -
  define r where "r = withdraw_amount (Date 2025 1 16) (str ''2025-01-16 09:00:00'')
          (first_run (Date 2025 1 15)) (str ''1001'') (Some (Fin 16000))"
  have 1: "fst r = InsufficientFunds"
    by (simp add: r_def withdraw_amount_def first_run_1001 Let_def
          reset_daily_withdraw_if_new_day_def)
  then obtain w' where r: "r = (InsufficientFunds, w')" by (cases r) simp
  note t = failed_operation_frame [where today = "Date 2025 1 16"
        and now = "str ''2025-01-16 09:00:00''" and w = "first_run (Date 2025 1 15)"
        and acc_no = "str ''1001''" and amount_in = "Some (Fin 16000)" and out = InsufficientFunds
        and w' = w', THEN conjunct2, THEN conjunct2, THEN conjunct1]
  have h: "withdraw_amount (Date 2025 1 16) (str ''2025-01-16 09:00:00'')
             (first_run (Date 2025 1 15)) (str ''1001'') (Some (Fin 16000))
           = (InsufficientFunds, w') \<and> InsufficientFunds \<noteq> Success"
    using r by (simp add: r_def)
  from t h have 2: "stored w' = stored (first_run (Date 2025 1 15))"
    and 3: "\<exists>a. accounts (first_run (Date 2025 1 15)) (str ''1001'') = Some a \<and>
              accounts w' = (accounts (first_run (Date 2025 1 15)))
                (str ''1001'' \<mapsto> (if last_withdraw_date a \<noteq> Date 2025 1 16
                             then a\<lparr>withdrawn_today := Fin 0, last_withdraw_date := Date 2025 1 16\<rparr>
                             else a))"
    by simp_all
  from 3 have 4: "map_option (\<lambda>a. (withdrawn_today a, last_withdraw_date a, balance a))
     (accounts w' (str ''1001'')) = Some (Fin 0, Date 2025 1 16, Fin 15000)"
    by (auto simp: first_run_1001)
  from 1 2 4 r show ?thesis by (simp add: r_def)
qed

section \<open>Bounded history\<close>

lemma keep_last_keep_last:
  assumes "m \<le> n"
  shows "keep_last m (keep_last n xs) = keep_last m xs"
proof -
  have "length xs - (length xs - n + m) + (length xs - n) = length xs - m"
    using assms by arith
  then show ?thesis by (simp add: keep_last_def)
qed

lemma keep_last_append_long: "n \<le> length ys \<Longrightarrow> keep_last n (xs @ ys) = keep_last n ys"
  by (simp add: keep_last_def)

lemma log_transaction_entry:
  "transactions (log_transaction (time e) a (t_type e) (amount e) (balance_after e) (t_note e)) =
     keep_last 50 (transactions a @ [e])"
  by (cases e) (simp add: log_transaction_transactions)

lemma log_all_snoc:
  "log_all a (es @ [e]) =
     log_transaction (time e) (log_all a es) (t_type e) (amount e) (balance_after e) (t_note e)"
  by (simp add: log_all_def)

lemma log_all_transactions:
  "es \<noteq> [] \<Longrightarrow> transactions (log_all a es) = keep_last 50 (transactions a @ es)"
proof (induction es rule: rev_induct)
  case Nil
  then show ?case by simp
next
  case (snoc e es)
  show ?case
  proof (cases "es = []")
    case True
    then show ?thesis
      by (simp add: log_all_def log_transaction_entry)
  next
    case False
    with snoc.IH have "transactions (log_all a es) = keep_last 50 (transactions a @ es)" by simp
    then have "transactions (log_all a (es @ [e])) =
                 keep_last 50 (keep_last 50 (transactions a @ es) @ [e])"
      by (simp add: log_all_snoc log_transaction_entry)
    also have "\<dots> = keep_last 49 (keep_last 50 (transactions a @ es)) @ [e]"
      using keep_last_snoc [of 49] by simp
    also have "\<dots> = keep_last 49 (transactions a @ es) @ [e]"
      by (simp add: keep_last_keep_last)
    also have "\<dots> = keep_last 50 ((transactions a @ es) @ [e])"
      using keep_last_snoc [of 49 "transactions a @ es" e] by simp
    finally show ?thesis by simp
  qed
qed

lemma log_transaction_bound: "length (transactions (log_transaction now a k amt b nt)) \<le> 50"
  by (simp add: log_transaction_transactions keep_last_length)

lemma bounded_history_upd:
  "bounded_history l \<Longrightarrow> length (transactions a) \<le> 50 \<Longrightarrow> bounded_history (l(k \<mapsto> a))"
  by (simp add: bounded_history_def)

lemma bounded_history_del: "bounded_history l \<Longrightarrow> bounded_history (l(k := None))"
  by (simp add: bounded_history_def)

lemma bounded_historyD: "bounded_history l \<Longrightarrow> l k = Some a \<Longrightarrow> length (transactions a) \<le> 50"
  by (simp add: bounded_history_def)

lemma pin_attempt_bounded:
  "bounded_history (accounts w) \<Longrightarrow> bounded_history (accounts (snd (pin_attempt w acc_no p)))"
  by (auto simp: pin_attempt_def Let_def save_accounts_def
        intro!: bounded_history_upd dest: bounded_historyD split: option.splits)

lemma pin_loop_bounded:
  "bounded_history (accounts w) \<Longrightarrow> bounded_history (accounts (snd (pin_loop n w acc_no pins)))"
proof (induction n arbitrary: w pins)
  case 0
  then show ?case by (simp add: save_accounts_def)
next
  case (Suc n)
  show ?case
  proof (cases pins)
    case Nil
    with Suc.prems show ?thesis by simp
  next
    case (Cons p ps)
    obtain x w1 where step: "pin_attempt w acc_no p = (x, w1)" by (cases "pin_attempt w acc_no p")
    have b: "bounded_history (accounts w1)"
      using pin_attempt_bounded [OF Suc.prems, of acc_no p] step by simp
    show ?thesis
      using b Suc.IH [OF b] by (cases x) (simp_all add: Cons step)
  qed
qed

lemma authenticate_bounded:
  "bounded_history (accounts w) \<Longrightarrow> bounded_history (accounts (snd (authenticate w acc_no pins)))"
  by (auto simp: authenticate_def pin_loop_bounded split: option.splits)

lemma deposit_amount_bounded:
  "bounded_history (accounts w) \<Longrightarrow>
     bounded_history (accounts (snd (deposit_amount now w acc_no amount_in)))"
  by (auto simp: deposit_amount_def Let_def save_accounts_def log_transaction_bound
        intro!: bounded_history_upd split: option.splits)

lemma reset_bounded:
  "length (transactions (reset_daily_withdraw_if_new_day today a)) = length (transactions a)"
  by (simp add: reset_daily_withdraw_if_new_day_def)

lemma withdraw_amount_bounded:
  "bounded_history (accounts w) \<Longrightarrow>
     bounded_history (accounts (snd (withdraw_amount today now w acc_no amount_in)))"
  by (auto simp: withdraw_amount_def Let_def save_accounts_def log_transaction_bound reset_bounded
        intro!: bounded_history_upd dest: bounded_historyD split: option.splits)

lemma transfer_funds_bounded:
  "bounded_history (accounts w) \<Longrightarrow>
     bounded_history (accounts (snd (transfer_funds today now w acc_no tgt amount_in)))"
  by (auto simp: transfer_funds_def Let_def save_accounts_def log_transaction_bound reset_bounded
        intro!: bounded_history_upd dest: bounded_historyD split: option.splits)

lemma apply_interest_bounded:
  "bounded_history (accounts w) \<Longrightarrow>
     bounded_history (accounts (snd (apply_interest_if_savings today now w acc_no)))"
  by (auto simp: apply_interest_if_savings_def Let_def save_accounts_def log_transaction_bound
        intro!: bounded_history_upd split: option.splits)

lemma create_account_bounded:
  "bounded_history (accounts w) \<Longrightarrow>
     bounded_history (accounts (snd (create_account other today now w acc_no holder p ob ty)))"
  by (auto simp: create_account_def Let_def save_accounts_def log_transaction_bound
        intro!: bounded_history_upd split: option.splits)

lemma delete_account_bounded:
  "bounded_history (accounts w) \<Longrightarrow> bounded_history (accounts (snd (delete_account w acc_no c)))"
  by (auto simp: delete_account_def save_accounts_def intro!: bounded_history_del
        split: option.splits)

lemma unlock_account_bounded:
  "bounded_history (accounts w) \<Longrightarrow> bounded_history (accounts (snd (unlock_account w acc_no)))"
  by (auto simp: unlock_account_def save_accounts_def intro!: bounded_history_upd
        dest: bounded_historyD split: option.splits)

lemma exec_bounded:
  "bounded_history (accounts w) \<Longrightarrow> bounded_history (accounts (exec other today now c w))"
  by (cases c)
     (simp_all add: authenticate_bounded deposit_amount_bounded withdraw_amount_bounded
        transfer_funds_bounded apply_interest_bounded create_account_bounded
        delete_account_bounded unlock_account_bounded)

lemma run_bounded:
  "bounded_history (accounts w) \<Longrightarrow> bounded_history (accounts (run other w cs))"
  by (induction cs arbitrary: w) (auto simp: exec_bounded)

lemma first_run_bounded: "bounded_history (accounts (first_run d))"
  by (simp add: bounded_history_def first_run_def save_accounts_def create_default_accounts_def)

lemma history_step_refl: "history_step xs xs"
  by (simp add: history_step_def)

lemma history_step_log:
  "transactions b = xs \<Longrightarrow>
     history_step xs (transactions (log_transaction now b k amt bal nt))"
  by (auto simp: history_step_def log_transaction_transactions)

lemma pin_attempt_history:
  "map_option transactions (accounts (snd (pin_attempt w acc_no p)) k) =
   map_option transactions (accounts w k)"
  by (auto simp: pin_attempt_def Let_def save_accounts_def split: option.splits)

lemma pin_loop_history:
  "map_option transactions (accounts (snd (pin_loop n w acc_no pins)) k) =
   map_option transactions (accounts w k)"
proof (induction n arbitrary: w pins)
  case 0
  then show ?case by (simp add: save_accounts_def)
next
  case (Suc n)
  show ?case
  proof (cases pins)
    case Nil
    then show ?thesis by simp
  next
    case (Cons p ps)
    obtain x w1 where step: "pin_attempt w acc_no p = (x, w1)" by (cases "pin_attempt w acc_no p")
    have b: "map_option transactions (accounts w1 k) = map_option transactions (accounts w k)"
      using pin_attempt_history [of w acc_no p k] step by simp
    show ?thesis
      using b Suc.IH [of w1 ps] by (cases x) (simp_all add: Cons step)
  qed
qed

lemma authenticate_history:
  "map_option transactions (accounts (snd (authenticate w acc_no pins)) k) =
   map_option transactions (accounts w k)"
  by (auto simp: authenticate_def pin_loop_history split: option.splits)

lemma exec_history_step:
  assumes "accounts w k = Some a" "accounts (exec other today now c w) k = Some a'"
  shows "history_step (transactions a) (transactions a')"
proof (cases c)
  case (Login acc_no pins)
  with assms authenticate_history [of w acc_no pins k] show ?thesis
    by (auto simp: history_step_refl)
next
  case (Deposit acc_no amt)
  with assms show ?thesis
    by (auto simp: deposit_amount_def Let_def save_accounts_def history_step_refl
          intro!: history_step_log split: option.splits if_splits)
next
  case (Withdraw acc_no amt)
  with assms show ?thesis
    by (auto simp: withdraw_amount_def Let_def save_accounts_def history_step_refl
          reset_daily_withdraw_if_new_day_def
          intro!: history_step_log split: option.splits if_splits)
next
  case (Transfer acc_no tgt amt)
  with assms show ?thesis
    by (auto simp: transfer_funds_def Let_def save_accounts_def history_step_refl
          reset_daily_withdraw_if_new_day_def
          intro!: history_step_log split: option.splits if_splits)
next
  case (Interest acc_no)
  with assms show ?thesis
    by (auto simp: apply_interest_if_savings_def Let_def save_accounts_def history_step_refl
          intro!: history_step_log split: option.splits if_splits)
next
  case (Create acc_no holder p ob ty)
  with assms show ?thesis
    by (auto simp: create_account_def Let_def save_accounts_def history_step_refl
          intro!: history_step_log split: option.splits if_splits)
next
  case (Delete acc_no confirm)
  with assms show ?thesis
    by (auto simp: delete_account_def save_accounts_def history_step_refl
          intro!: history_step_log split: option.splits if_splits)
next
  case (Unlock acc_no)
  with assms show ?thesis
    by (auto simp: unlock_account_def save_accounts_def history_step_refl
          intro!: history_step_log split: option.splits if_splits)
qed

text \<open>
  Claim C6. Every call of \<open>log_transaction\<close> leaves at most 50 entries. Every sequence
  of operations keeps every history of the ledger at 50 entries or fewer, from the
  first-run ledger and from any ledger that has the bound. One operation leaves the
  history of an account as it is, or appends one entry at the end and keeps the last 50.
  So after any entries \<open>es\<close> logged for an account its history is the last 50 of the
  old history followed by \<open>es\<close>, in the order of logging (newest last); once 50 or more
  have been logged, it is exactly the 50 most recent ones, oldest first.
\<close>

theorem history_bound:
  "length (transactions (log_transaction now a k amt b nt)) \<le> 50 \<and>
   (bounded_history (accounts w) \<longrightarrow> bounded_history (accounts (run other w cs))) \<and>
   bounded_history (accounts (run other (first_run d) cs)) \<and>
   (\<forall>key x x'. accounts w key = Some x \<and> accounts (exec other today now c w) key = Some x' \<longrightarrow>
      history_step (transactions x) (transactions x')) \<and>
   (es \<noteq> [] \<longrightarrow> transactions (log_all a es) = keep_last 50 (transactions a @ es)) \<and>
   (50 \<le> length es \<longrightarrow> transactions (log_all a es) = keep_last 50 es \<and>
      length (transactions (log_all a es)) = 50)"
proof (intro conjI impI allI)
  show "length (transactions (log_transaction now a k amt b nt)) \<le> 50"
    by (rule log_transaction_bound)
  show "bounded_history (accounts (run other (first_run d) cs))"
    by (rule run_bounded [OF first_run_bounded])
next
  assume "bounded_history (accounts w)"
  then show "bounded_history (accounts (run other w cs))"
    by (rule run_bounded)
next
  fix key x x'
  assume "accounts w key = Some x \<and> accounts (exec other today now c w) key = Some x'"
  then show "history_step (transactions x) (transactions x')"
    using exec_history_step by blast
next
  assume "es \<noteq> []"
  then show "transactions (log_all a es) = keep_last 50 (transactions a @ es)"
    by (rule log_all_transactions)
next
  assume h: "50 \<le> length es"
  then have "es \<noteq> []" by auto
  then have "transactions (log_all a es) = keep_last 50 (transactions a @ es)"
    by (rule log_all_transactions)
  with h show 1: "transactions (log_all a es) = keep_last 50 es"
    by (simp add: keep_last_append_long)
  from h show "length (transactions (log_all a es)) = 50"
    by (simp add: 1 keep_last_length)
qed

theorem history_bound_witness:
  "length (transactions (log_all (the (accounts (first_run (Date 2025 1 15)) (str ''1001'')))
      (map (\<lambda>i. \<lparr>time = (str ''2025-01-15 10:00:00''), t_type = (str ''deposit''), amount = Fin (of_nat (Suc i)),
                  balance_after = Fin 0, t_note = Note (str ''Cash deposit'')\<rparr>) [0..<51]))) = 50 \<and>
   map amount (transactions (log_all (the (accounts (first_run (Date 2025 1 15)) (str ''1001'')))
      (map (\<lambda>i. \<lparr>time = (str ''2025-01-15 10:00:00''), t_type = (str ''deposit''), amount = Fin (of_nat (Suc i)),
                  balance_after = Fin 0, t_note = Note (str ''Cash deposit'')\<rparr>) [0..<51])))
     = map (\<lambda>i. Fin (of_nat (Suc i))) [1..<51]"
proof -
  define es where "es = map (\<lambda>i. \<lparr>time = (str ''2025-01-15 10:00:00''), t_type = (str ''deposit''),
       amount = Fin (of_nat (Suc i)), balance_after = Fin 0, t_note = Note (str ''Cash deposit'')\<rparr>) [0..<51]"
  define a where "a = the (accounts (first_run (Date 2025 1 15)) (str ''1001''))"
  have len: "50 \<le> length es" by (simp add: es_def)
  from history_bound [where es = es and a = a, THEN conjunct2, THEN conjunct2, THEN conjunct2,
      THEN conjunct2, THEN conjunct2]
    len
  have 1: "transactions (log_all a es) = keep_last 50 es"
    and 2: "length (transactions (log_all a es)) = 50" by blast+
  have "keep_last 50 es = map (\<lambda>i. \<lparr>time = (str ''2025-01-15 10:00:00''), t_type = (str ''deposit''),
       amount = Fin (of_nat (Suc i)), balance_after = Fin 0, t_note = Note (str ''Cash deposit'')\<rparr>) [1..<51]"
    by (simp add: keep_last_def es_def drop_map)
  with 1 have "map amount (transactions (log_all a es)) = map (\<lambda>i. Fin (of_nat (Suc i))) [1..<51]"
    by (simp add: comp_def)
  with 2 show ?thesis by (simp add: es_def a_def)
qed

section \<open>Opening balance of a new account\<close>

text \<open>
  Claim C3: every balance of every reachable ledger is at least 0. \<open>create_account\<close>
  checks the account number, the PIN and the type, and takes any opening balance that
  parses as a number: on the first-run ledger, creating account 2001 with the opening
  balance -100 succeeds and leaves the balance -100.
\<close>

theorem create_account_negative_balance:
  "map_option balance
     (accounts (run other (first_run (Date 2025 1 15))
        [(Date 2025 1 15, str ''2025-01-15 10:00:00'',
          Create (str ''2001'') (str ''Asha Rao'') (str ''1111'') (Some (Fin (- 100)))
            (str ''current''))]) (str ''2001''))
   = Some (Fin (- 100))"
  by (simp add: create_account_def first_run_2001 isdigit_ascii Let_def
        save_accounts_def log_transaction_def)

text \<open>
  Claim C8: every transaction stored in a history has a strictly positive amount.
  \<open>create_account\<close> logs the opening balance as a deposit without the check that
  \<open>deposit_amount\<close> makes: the account created with the opening balance -100 has
  the history [deposit of -100] (and an opening balance of 0 logs a deposit of 0).
\<close>

theorem create_account_logs_negative_deposit:
  "map_option (\<lambda>a. map (\<lambda>t. (t_type t, amount t)) (transactions a))
     (accounts (run other (first_run (Date 2025 1 15))
        [(Date 2025 1 15, str ''2025-01-15 10:00:00'',
          Create (str ''2001'') (str ''Asha Rao'') (str ''1111'') (Some (Fin (- 100)))
            (str ''current''))]) (str ''2001''))
   = Some [(str ''deposit'', Fin (- 100))]"
  by (simp add: create_account_def first_run_2001 isdigit_ascii Let_def
        save_accounts_def log_transaction_def)

section \<open>The counter of failed attempts\<close>

text \<open>
  The program only sets the counter to 0 or adds 1 to it: it is never negative in a
  ledger that a sequence of operations reaches from the first run.
\<close>

lemma counters_upd:
  "nonneg_counters l \<Longrightarrow> 0 \<le> failed_attempts a \<Longrightarrow> nonneg_counters (l(k \<mapsto> a))"
  by (simp add: nonneg_counters_def)

lemma counters_del: "nonneg_counters l \<Longrightarrow> nonneg_counters (l(k := None))"
  by (simp add: nonneg_counters_def)

lemma countersD: "nonneg_counters l \<Longrightarrow> l k = Some a \<Longrightarrow> 0 \<le> failed_attempts a"
  by (simp add: nonneg_counters_def)

lemma pin_attempt_counters:
  "nonneg_counters (accounts w) \<Longrightarrow> nonneg_counters (accounts (snd (pin_attempt w acc_no p)))"
  by (auto simp: pin_attempt_def Let_def save_accounts_def
        intro!: counters_upd dest: countersD split: option.splits)

lemma pin_loop_counters:
  "nonneg_counters (accounts w) \<Longrightarrow> nonneg_counters (accounts (snd (pin_loop n w acc_no pins)))"
proof (induction n arbitrary: w pins)
  case 0
  then show ?case by (simp add: save_accounts_def)
next
  case (Suc n)
  show ?case
  proof (cases pins)
    case Nil
    with Suc.prems show ?thesis by simp
  next
    case (Cons p ps)
    obtain x w1 where step: "pin_attempt w acc_no p = (x, w1)" by (cases "pin_attempt w acc_no p")
    have b: "nonneg_counters (accounts w1)"
      using pin_attempt_counters [OF Suc.prems, of acc_no p] step by simp
    show ?thesis
      using b Suc.IH [OF b] by (cases x) (simp_all add: Cons step)
  qed
qed

lemma exec_counters:
  assumes "nonneg_counters (accounts w)"
  shows "nonneg_counters (accounts (exec other today now c w))"
proof (cases c)
  case (Login acc_no pins)
  with assms show ?thesis
    by (auto simp: authenticate_def pin_loop_counters split: option.splits)
next
  case (Deposit acc_no amt)
  with assms show ?thesis
    by (auto simp: deposit_amount_def Let_def save_accounts_def
          intro!: counters_upd dest: countersD split: option.splits)
next
  case (Withdraw acc_no amt)
  with assms show ?thesis
    by (auto simp: withdraw_amount_def Let_def save_accounts_def
          intro!: counters_upd dest: countersD split: option.splits)
next
  case (Transfer acc_no tgt amt)
  with assms show ?thesis
    by (auto simp: transfer_funds_def Let_def save_accounts_def
          intro!: counters_upd dest: countersD split: option.splits)
next
  case (Interest acc_no)
  with assms show ?thesis
    by (auto simp: apply_interest_if_savings_def Let_def save_accounts_def
          intro!: counters_upd dest: countersD split: option.splits)
next
  case (Create acc_no holder p ob ty)
  with assms show ?thesis
    by (auto simp: create_account_def Let_def save_accounts_def
          intro!: counters_upd split: option.splits)
next
  case (Delete acc_no confirm)
  with assms show ?thesis
    by (auto simp: delete_account_def save_accounts_def intro!: counters_del
          split: option.splits)
next
  case (Unlock acc_no)
  with assms show ?thesis
    by (auto simp: unlock_account_def save_accounts_def
          intro!: counters_upd split: option.splits)
qed

lemma run_counters:
  "nonneg_counters (accounts w) \<Longrightarrow> nonneg_counters (accounts (run other w cs))"
  by (induction cs arbitrary: w) (auto simp: exec_counters)

lemma first_run_counters: "nonneg_counters (accounts (first_run d))"
  by (simp add: nonneg_counters_def first_run_def save_accounts_def create_default_accounts_def)

text \<open>
  An unlocked account has the counter 0 in every ledger that is reached from the first
  run by operations whose logins have their three PINs at hand: \<open>authenticate\<close>
  returns with the counter reset or with the account locked.
\<close>

lemma fresh_upd:
  "fresh_counters l \<Longrightarrow> locked a \<or> failed_attempts a = 0 \<Longrightarrow> fresh_counters (l(k \<mapsto> a))"
  by (auto simp: fresh_counters_def)

lemma fresh_del: "fresh_counters l \<Longrightarrow> fresh_counters (l(k := None))"
  by (auto simp: fresh_counters_def)

lemma freshD: "fresh_counters l \<Longrightarrow> l k = Some a \<Longrightarrow> locked a \<or> failed_attempts a = 0"
  by (auto simp: fresh_counters_def)

lemma pin_loop_ends_fresh:
  assumes "accounts w acc_no = Some a"
    and "0 \<le> failed_attempts a"
    and "3 \<le> failed_attempts a + int n"
    and "0 < n"
    and "n \<le> length pins"
  shows "\<exists>a'. accounts (snd (pin_loop n w acc_no pins)) = (accounts w)(acc_no \<mapsto> a') \<and>
              (locked a' \<or> failed_attempts a' = 0)"
  using assms
proof (induction n arbitrary: w a pins)
  case 0
  then show ?case by simp
next
  case (Suc n)
  from Suc.prems obtain p ps where pins: "pins = p # ps" by (cases pins) auto
  let ?a = "a\<lparr>failed_attempts := failed_attempts a + 1\<rparr>"
  let ?w = "w\<lparr>accounts := (accounts w)(acc_no \<mapsto> ?a)\<rparr>"
  consider (right) "p = pin a" | (lock) "p \<noteq> pin a" "failed_attempts a + 1 \<ge> 3"
    | (wrong) "p \<noteq> pin a" "\<not> failed_attempts a + 1 \<ge> 3" by blast
  then show ?case
  proof cases
    case right
    with Suc.prems(1) show ?thesis
      by (auto simp: pins pin_attempt_def save_accounts_def)
  next
    case lock
    with Suc.prems(1) show ?thesis
      by (auto simp: pins pin_attempt_def save_accounts_def Let_def)
  next
    case wrong
    with Suc.prems(1) have step: "pin_attempt w acc_no p = (None, ?w)"
      by (simp add: pin_attempt_def Let_def)
    have "\<exists>a'. accounts (snd (pin_loop n ?w acc_no ps)) = (accounts ?w)(acc_no \<mapsto> a') \<and>
              (locked a' \<or> failed_attempts a' = 0)"
      using Suc.prems wrong by (intro Suc.IH [where a = ?a]) (auto simp: pins)
    then show ?thesis
      by (auto simp: pins step)
  qed
qed

lemma authenticate_fresh:
  assumes "fresh_counters (accounts w)" "3 \<le> length pins"
  shows "fresh_counters (accounts (snd (authenticate w acc_no pins)))"
proof (cases "accounts w acc_no")
  case None
  with assms show ?thesis by (simp add: authenticate_def)
next
  case (Some a)
  show ?thesis
  proof (cases "locked a")
    case True
    with Some assms show ?thesis by (simp add: authenticate_def)
  next
    case False
    with Some assms(1) have f: "failed_attempts a = 0" by (auto dest: freshD)
    have "\<exists>a'. accounts (snd (pin_loop 3 w acc_no pins)) = (accounts w)(acc_no \<mapsto> a') \<and>
              (locked a' \<or> failed_attempts a' = 0)"
      using Some f assms(2) by (intro pin_loop_ends_fresh [where a = a]) auto
    with Some False assms(1) show ?thesis
      by (auto simp: authenticate_def intro!: fresh_upd)
  qed
qed

lemma exec_fresh:
  assumes "fresh_counters (accounts w)" "enough_pins c"
  shows "fresh_counters (accounts (exec other today now c w))"
proof (cases c)
  case (Login acc_no pins)
  with assms authenticate_fresh show ?thesis by simp
next
  case (Deposit acc_no amt)
  with assms show ?thesis
    by (auto simp: deposit_amount_def Let_def save_accounts_def log_transaction_def
          intro!: fresh_upd dest: freshD split: option.splits)
next
  case (Withdraw acc_no amt)
  with assms show ?thesis
    by (auto simp: withdraw_amount_def Let_def save_accounts_def log_transaction_def
          reset_daily_withdraw_if_new_day_def
          intro!: fresh_upd dest: freshD split: option.splits)
next
  case (Transfer acc_no tgt amt)
  with assms show ?thesis
    by (auto simp: transfer_funds_def Let_def save_accounts_def log_transaction_def
          reset_daily_withdraw_if_new_day_def
          intro!: fresh_upd dest: freshD split: option.splits)
next
  case (Interest acc_no)
  with assms show ?thesis
    by (auto simp: apply_interest_if_savings_def Let_def save_accounts_def log_transaction_def
          intro!: fresh_upd dest: freshD split: option.splits)
next
  case (Create acc_no holder p ob ty)
  with assms show ?thesis
    by (auto simp: create_account_def Let_def save_accounts_def log_transaction_def
          intro!: fresh_upd split: option.splits)
next
  case (Delete acc_no confirm)
  with assms show ?thesis
    by (auto simp: delete_account_def save_accounts_def intro!: fresh_del split: option.splits)
next
  case (Unlock acc_no)
  with assms show ?thesis
    by (auto simp: unlock_account_def save_accounts_def intro!: fresh_upd split: option.splits)
qed

lemma run_fresh:
  "fresh_counters (accounts w) \<Longrightarrow> list_all (\<lambda>(today, now, c). enough_pins c) cs \<Longrightarrow>
     fresh_counters (accounts (run other w cs))"
proof (induction cs arbitrary: w)
  case Nil
  then show ?case by simp
next
  case (Cons x cs)
  obtain today now c where x: "x = (today, now, c)" by (cases x)
  from Cons.prems have "fresh_counters (accounts (exec other today now c w))"
    by (intro exec_fresh) (auto simp: x)
  with Cons show ?case by (simp add: x)
qed

lemma first_run_fresh: "fresh_counters (accounts (first_run d))"
  by (simp add: fresh_counters_def first_run_def save_accounts_def create_default_accounts_def)


end
